theory Spec2Isabelle
  imports Complex_Main "HOL-Library.Log_Nat"
begin

section \<open>Data model\<close>

text \<open>
  The affiliate ledger of the repository: the tables \<open>users\<close>, \<open>commissions\<close> and
  \<open>affiliate_payouts\<close> of \<open>database.js\<close>, the payout processor of \<open>payout-cron.js\<close> and the
  two commission recorders of \<open>server.js\<close>.

  Conventions of the embedding.
  \<^item> A JavaScript number and an SQLite \<open>REAL\<close> value are IEEE 754 binary64 numbers. A
    finite one is modelled by the rational it denotes; an arithmetic operation of the
    code is the exact operation followed by \<open>to_double\<close>, the rounding to the nearest
    binary64 number with ties to the even significand. Infinities and \<open>NaN\<close> are not
    represented: the amounts of this program come from integer pence amounts and stay
    far below the overflow threshold.
  \<^item> A \<open>Date\<close> object is the record of the calendar fields the code reads from it
    (\<open>getFullYear\<close>, \<open>getMonth\<close> with January = 0, \<open>getDate\<close>); the time of day is not
    modelled. A timestamp column holds such a date, \<open>None\<close> for SQL \<open>NULL\<close>.
  \<^item> A rejected promise or thrown exception is the value \<open>Inl e\<close>, returned together
    with the state reached when it was raised.
  \<^item> \<open>console.log\<close> and \<open>console.error\<close> append a message to \<open>console\<close>.
\<close>

datatype error = Error string

subsection \<open>Binary64 arithmetic\<close>

definition round_half_even :: "rat \<Rightarrow> int" where
  "round_half_even x =
     (let f = \<lfloor>x\<rfloor>; r = x - of_int f
      in if r < 1 / 2 then f else if 1 / 2 < r then f + 1 else if even f then f else f + 1)"

definition pow2 :: "int \<Rightarrow> rat" where
  "pow2 k = (if 0 \<le> k then 2 ^ nat k else 1 / 2 ^ nat (- k))"

text \<open>The exponent \<open>k\<close> with \<open>2 ^ k \<le> |x| < 2 ^ (k + 1)\<close>, for \<open>x\<close> other than 0.\<close>

definition binary_exponent :: "rat \<Rightarrow> int" where
  "binary_exponent x =
     (case quotient_of \<bar>x\<bar> of (p, q) \<Rightarrow>
        let d = bitlen p - bitlen q in if pow2 d \<le> \<bar>x\<bar> then d else d - 1)"

text \<open>
  The binary64 number nearest to \<open>x\<close>: 53 significant bits, the spacing never below
  \<open>2 ^ -1074\<close> (subnormal numbers), ties to even.
\<close>

definition to_double :: "rat \<Rightarrow> rat" where
  "to_double x =
     (if x = 0 then 0
      else let q = max (binary_exponent x - 52) (- 1074)
           in of_int (round_half_even (x / pow2 q)) * pow2 q)"

text \<open>Addition of binary64 numbers from left to right, starting from 0.\<close>

definition double_sum :: "rat list \<Rightarrow> rat" where
  "double_sum xs = foldl (\<lambda>acc x. to_double (acc + x)) 0 xs"

subsection \<open>Tables\<close>

record jsdate =
  getFullYear :: int
  getMonth :: int
  getDate :: int

record user =
  u_id :: nat
  u_email :: string
  u_referrer_id :: "nat option"
  u_stripe_account_id :: "string option"
  u_created_at :: jsdate

record commission =
  c_id :: nat
  c_referrer_id :: nat
  c_referred_user_id :: nat
  c_purchase_amount :: rat
  c_commission_amount :: rat
  c_status :: string
  c_stripe_payment_intent_id :: "string option"
  c_created_at :: jsdate
  c_paid_at :: "jsdate option"

record payout =
  p_id :: nat
  p_user_id :: nat
  p_amount :: rat
  p_stripe_payout_id :: "string option"
  p_status :: string
  p_created_at :: jsdate
  p_paid_at :: "jsdate option"

text \<open>The argument of \<open>stripe.transfers.create\<close>.\<close>

record transfer_request =
  t_amount :: int
  t_currency :: string
  t_destination :: "string option"
  t_description :: string
  t_metadata_user_id :: nat
  t_metadata_affiliate_payout :: string

text \<open>The messages written to the console, one constructor per call site.\<close>

datatype log_msg =
    LogStartingMonthlyProcess
  | LogNotLastDaySkipping
  | LogMonthlyJobFailed error
  | LogProcessingMonthlyPayouts
  | LogNoEligibleUsers
  | LogProcessingPayoutsFor nat
  | LogFailedToProcessPayout nat error
  | LogMonthlyProcessCompleted
  | LogMonthlyProcessFailed error
  | LogProcessingPayout nat string
  | LogBelowThreshold nat rat
  | LogPayoutProcessed nat rat string
  | LogPayoutFailed nat error
  | LogTriggeringManual
  | LogNoUserIdInSession
  | LogNoUserIdInInvoice
  | LogNoReferralFound nat
  | LogCommissionRecorded rat nat
  | LogFailedAffiliateCommission error
  | LogCommissionPeriodExpired nat
  | LogSubscriptionCommissionRecorded rat nat
  | LogFailedSubscriptionCommission error

text \<open>
  The state the code reads and writes: the three tables with their \<open>AUTOINCREMENT\<close>
  sequences, the transfer requests sent to the payment rail so far, the console, and the
  number of database statements issued so far.
\<close>

record world =
  users :: "user list"
  commissions :: "commission list"
  commissions_seq :: nat
  affiliate_payouts :: "payout list"
  affiliate_payouts_seq :: nat
  transfers :: "transfer_request list"
  console :: "log_msg list"
  db_calls :: nat

text \<open>
  What the code does not decide: the current date (\<open>new Date()\<close>, \<open>CURRENT_TIMESTAMP\<close>),
  its rendering by \<open>toLocaleDateString\<close>, whether the \<open>n\<close>-th database statement fails
  (\<open>db_fault env n = Some e\<close>), the answer of the payment rail to the \<open>n\<close>-th transfer
  request (the transfer id, or the error thrown), and the binary64 number SQLite's
  aggregate \<open>SUM\<close> returns for a non-empty list of column values, given in the order of
  the table. The aggregate is code of SQLite, not of the repository, and its summation
  differs between SQLite versions; for the lists of the examples below it returns
  \<open>double_sum\<close>.
\<close>

record env =
  now :: jsdate
  toLocaleDateString :: string
  db_fault :: "nat \<Rightarrow> error option"
  stripe_transfers_create :: "nat \<Rightarrow> transfer_request \<Rightarrow> error + string"
  sqlite_SUM :: "rat list \<Rightarrow> rat"

section \<open>Sequencing\<close>

definition bind ::
  "(error + 'a) \<times> world \<Rightarrow> ('a \<Rightarrow> world \<Rightarrow> (error + 'b) \<times> world) \<Rightarrow> (error + 'b) \<times> world" where
  "bind m f = (case m of (Inl e, w) \<Rightarrow> (Inl e, w) | (Inr a, w) \<Rightarrow> f a w)"

definition log :: "world \<Rightarrow> log_msg \<Rightarrow> world" where
  "log w m = w\<lparr>console := console w @ [m]\<rparr>"

text \<open>
  One database statement (\<open>db.run\<close>, \<open>db.get\<close>, \<open>db.all\<close>): the callback receives \<open>err\<close>
  and the promise is rejected with the tables untouched, or the statement \<open>f\<close> runs and
  the promise resolves with its result.
\<close>

definition db_call :: "env \<Rightarrow> world \<Rightarrow> (world \<Rightarrow> 'a \<times> world) \<Rightarrow> (error + 'a) \<times> world" where
  "db_call e w f =
     (let w' = w\<lparr>db_calls := Suc (db_calls w)\<rparr> in
      case db_fault e (db_calls w) of
        Some err \<Rightarrow> (Inl err, w')
      | None \<Rightarrow> (case f w' of (a, w'') \<Rightarrow> (Inr a, w'')))"

text \<open>
  The rowid SQLite gives a row inserted into an \<open>AUTOINCREMENT\<close> table: one more than
  the largest rowid the table has ever held.
\<close>

definition next_rowid :: "nat \<Rightarrow> nat list \<Rightarrow> nat" where
  "next_rowid seq ids = Suc (fold max ids seq)"

text \<open>SQL \<open>SUM\<close>: \<open>NULL\<close> over no rows, SQLite's sum otherwise.\<close>

definition sql_SUM :: "env \<Rightarrow> rat list \<Rightarrow> rat option" where
  "sql_SUM e xs = (if xs = [] then None else Some (sqlite_SUM e xs))"

definition pending_amounts :: "commission list \<Rightarrow> nat \<Rightarrow> rat list" where
  "pending_amounts cs userId =
     map c_commission_amount
       (filter (\<lambda>c. c_referrer_id c = userId \<and> c_status c = ''pending'') cs)"

section \<open>database.js\<close>

definition getUserById :: "env \<Rightarrow> nat \<Rightarrow> world \<Rightarrow> (error + user option) \<times> world" where
  "getUserById e ident w = db_call e w (\<lambda>w. (find (\<lambda>u. u_id u = ident) (users w), w))"

definition createCommission ::
  "env \<Rightarrow> nat \<Rightarrow> nat \<Rightarrow> rat \<Rightarrow> rat \<Rightarrow> string option \<Rightarrow> world \<Rightarrow> (error + nat) \<times> world" where
  "createCommission e referrerId referredUserId purchaseAmount commissionAmount paymentIntentId w =
     db_call e w (\<lambda>w.
       let lastID = next_rowid (commissions_seq w) (map c_id (commissions w)) in
       (lastID,
        w\<lparr>commissions := commissions w @
             [\<lparr>c_id = lastID, c_referrer_id = referrerId, c_referred_user_id = referredUserId,
               c_purchase_amount = purchaseAmount, c_commission_amount = commissionAmount,
               c_status = ''pending'', c_stripe_payment_intent_id = paymentIntentId,
               c_created_at = now e, c_paid_at = None\<rparr>],
           commissions_seq := lastID\<rparr>))"

text \<open>\<open>resolve(row.total || 0)\<close>: a \<open>NULL\<close> total and a total of 0 both give 0.\<close>

definition getTotalPendingCommissions :: "env \<Rightarrow> nat \<Rightarrow> world \<Rightarrow> (error + rat) \<times> world" where
  "getTotalPendingCommissions e userId w =
     db_call e w (\<lambda>w.
       ((case sql_SUM e (pending_amounts (commissions w) userId) of
           None \<Rightarrow> 0
         | Some t \<Rightarrow> (if t = 0 then 0 else t)), w))"

definition createPayout :: "env \<Rightarrow> nat \<Rightarrow> rat \<Rightarrow> world \<Rightarrow> (error + nat) \<times> world" where
  "createPayout e userId amount w =
     db_call e w (\<lambda>w.
       let lastID = next_rowid (affiliate_payouts_seq w) (map p_id (affiliate_payouts w)) in
       (lastID,
        w\<lparr>affiliate_payouts := affiliate_payouts w @
             [\<lparr>p_id = lastID, p_user_id = userId, p_amount = amount,
               p_stripe_payout_id = None, p_status = ''pending'',
               p_created_at = now e, p_paid_at = None\<rparr>],
           affiliate_payouts_seq := lastID\<rparr>))"

definition updatePayoutStatus ::
  "env \<Rightarrow> nat \<Rightarrow> string \<Rightarrow> string option \<Rightarrow> world \<Rightarrow> (error + bool) \<times> world" where
  "updatePayoutStatus e payoutId status stripePayoutId w =
     (let paidAt = (if status = ''paid'' then Some (now e) else None) in
      db_call e w (\<lambda>w.
        (list_ex (\<lambda>p. p_id p = payoutId) (affiliate_payouts w),
         w\<lparr>affiliate_payouts :=
             map (\<lambda>p. if p_id p = payoutId
                       then p\<lparr>p_status := status, p_stripe_payout_id := stripePayoutId,
                              p_paid_at := paidAt\<rparr>
                       else p)
               (affiliate_payouts w)\<rparr>)))"

section \<open>payout-cron.js\<close>

text \<open>
  The eligibility query. \<open>users.id\<close> is the primary key, so \<open>GROUP BY u.id\<close> makes one
  group per user row; the \<open>LEFT JOIN\<close> pairs the user with its pending commissions, and
  \<open>COALESCE\<close> turns the \<open>NULL\<close> sum of a user without any into 0. Each result row is the
  user row with the column \<open>total_pending\<close>; rows with equal totals keep the table's
  order.
\<close>

definition getEligibleUsers :: "env \<Rightarrow> world \<Rightarrow> (error + (user \<times> rat) list) \<times> world" where
  "getEligibleUsers e w =
     db_call e w (\<lambda>w.
       (sort_key (\<lambda>r. - snd r)
          (filter (\<lambda>r. snd r \<ge> 50)
             (map (\<lambda>u. (u, case sql_SUM e (pending_amounts (commissions w) (u_id u)) of
                               None \<Rightarrow> 0 | Some t \<Rightarrow> t))
                (filter (\<lambda>u. u_stripe_account_id u \<noteq> None) (users w)))), w))"

definition updateCommissionsToPaid :: "env \<Rightarrow> nat \<Rightarrow> world \<Rightarrow> (error + nat) \<times> world" where
  "updateCommissionsToPaid e userId w =
     db_call e w (\<lambda>w.
       (length (filter (\<lambda>c. c_referrer_id c = userId \<and> c_status c = ''pending'')
                  (commissions w)),
        w\<lparr>commissions :=
            map (\<lambda>c. if c_referrer_id c = userId \<and> c_status c = ''pending''
                      then c\<lparr>c_status := ''paid'', c_paid_at := Some (now e)\<rparr>
                      else c)
              (commissions w)\<rparr>))"

text \<open>\<open>Math.round\<close> of a binary64 number: the nearest integer, a half rounded up.\<close>

definition Math_round :: "rat \<Rightarrow> int" where
  "Math_round x = \<lfloor>x + 1 / 2\<rfloor>"

text \<open>The call of the payment rail: the request is recorded, the answer is \<open>env\<close>'s.\<close>

definition transfers_create ::
  "env \<Rightarrow> transfer_request \<Rightarrow> world \<Rightarrow> (error + string) \<times> world" where
  "transfers_create e req w =
     (stripe_transfers_create e (length (transfers w)) req, w\<lparr>transfers := transfers w @ [req]\<rparr>)"

text \<open>The object \<open>processUserPayout\<close> passes to \<open>stripe.transfers.create\<close>.\<close>

definition transfer_params :: "env \<Rightarrow> user \<Rightarrow> int \<Rightarrow> transfer_request" where
  "transfer_params e user payoutAmount =
     \<lparr>t_amount = payoutAmount, t_currency = ''gbp'',
      t_destination = u_stripe_account_id user,
      t_description = ''CopyBoss Affiliate Payout - '' @ toLocaleDateString e,
      t_metadata_user_id = u_id user,
      t_metadata_affiliate_payout = ''true''\<rparr>"

text \<open>The body of the \<open>try\<close> block of \<open>processUserPayout\<close>.\<close>

definition processUserPayout_try :: "env \<Rightarrow> user \<Rightarrow> world \<Rightarrow> (error + unit) \<times> world" where
  "processUserPayout_try e user w =
     bind (getTotalPendingCommissions e (u_id user)
             (log w (LogProcessingPayout (u_id user) (u_email user))))
       (\<lambda>totalPending w.
          if totalPending < 50
          then (Inr (), log w (LogBelowThreshold (u_id user) totalPending))
          else
            let payoutAmount = Math_round (to_double (totalPending * 100)) in
            bind (transfers_create e (transfer_params e user payoutAmount) w)
              (\<lambda>payout w.
                 bind (createPayout e (u_id user) totalPending w)
                   (\<lambda>payoutId w.
                      bind (updatePayoutStatus e payoutId ''paid'' (Some payout) w)
                        (\<lambda>_ w.
                           bind (updateCommissionsToPaid e (u_id user) w)
                             (\<lambda>_ w.
                                (Inr (),
                                 log w (LogPayoutProcessed (u_id user) totalPending payout)))))))"

text \<open>The \<open>catch\<close> block: it records a failed payout and throws the error again.\<close>

definition processUserPayout_catch ::
  "env \<Rightarrow> user \<Rightarrow> error \<Rightarrow> world \<Rightarrow> (error + unit) \<times> world" where
  "processUserPayout_catch e user err w =
     bind (getTotalPendingCommissions e (u_id user) (log w (LogPayoutFailed (u_id user) err)))
       (\<lambda>totalPending w.
          bind (createPayout e (u_id user) totalPending w)
            (\<lambda>payoutId w.
               bind (updatePayoutStatus e payoutId ''failed'' None w)
                 (\<lambda>_ w. (Inl err, w))))"

definition processUserPayout :: "env \<Rightarrow> user \<Rightarrow> world \<Rightarrow> (error + unit) \<times> world" where
  "processUserPayout e user w =
     (case processUserPayout_try e user w of
        (Inl err, w') \<Rightarrow> processUserPayout_catch e user err w'
      | (Inr u, w') \<Rightarrow> (Inr u, w'))"

text \<open>The \<open>for\<close> loop of \<open>processMonthlyPayouts\<close>, with its \<open>try\<close>/\<open>catch\<close> around each user.\<close>

fun payout_loop :: "env \<Rightarrow> user list \<Rightarrow> world \<Rightarrow> world" where
  "payout_loop e [] w = w"
| "payout_loop e (user # rest) w =
     (case processUserPayout e user w of
        (Inl err, w') \<Rightarrow> payout_loop e rest (log w' (LogFailedToProcessPayout (u_id user) err))
      | (Inr _, w') \<Rightarrow> payout_loop e rest w')"

definition processMonthlyPayouts :: "env \<Rightarrow> world \<Rightarrow> (error + unit) \<times> world" where
  "processMonthlyPayouts e w =
     (case getEligibleUsers e (log w LogProcessingMonthlyPayouts) of
        (Inl err, w') \<Rightarrow> (Inl err, log w' (LogMonthlyProcessFailed err))
      | (Inr eligibleUsers, w') \<Rightarrow>
          if length eligibleUsers = 0 then (Inr (), log w' LogNoEligibleUsers)
          else (Inr (),
                log (payout_loop e (map fst eligibleUsers)
                       (log w' (LogProcessingPayoutsFor (length eligibleUsers))))
                  LogMonthlyProcessCompleted))"

text \<open>
  Calendar arithmetic of \<open>Date\<close>: \<open>setDate d n\<close> for a day number \<open>n\<close> from 1 up to one
  month past the end of \<open>d\<close>'s month, which covers \<open>getDate() + 1\<close>: a day past the end of
  the month rolls over into the next month, and past December into the next year.
\<close>

definition leap_year :: "int \<Rightarrow> bool" where
  "leap_year y = (y mod 4 = 0 \<and> (y mod 100 \<noteq> 0 \<or> y mod 400 = 0))"

definition days_in_month :: "int \<Rightarrow> int \<Rightarrow> int" where
  "days_in_month y m =
     (if m = 1 then (if leap_year y then 29 else 28)
      else if m = 3 \<or> m = 5 \<or> m = 8 \<or> m = 10 then 30 else 31)"

definition valid_date :: "jsdate \<Rightarrow> bool" where
  "valid_date d =
     (0 \<le> getMonth d \<and> getMonth d \<le> 11 \<and> 1 \<le> getDate d
      \<and> getDate d \<le> days_in_month (getFullYear d) (getMonth d))"

definition setDate :: "jsdate \<Rightarrow> int \<Rightarrow> jsdate" where
  "setDate d n =
     (let dim = days_in_month (getFullYear d) (getMonth d) in
      if n \<le> dim then d\<lparr>getDate := n\<rparr>
      else if getMonth d = 11
        then \<lparr>getFullYear = getFullYear d + 1, getMonth = 0, getDate = n - dim\<rparr>
        else \<lparr>getFullYear = getFullYear d, getMonth = getMonth d + 1, getDate = n - dim\<rparr>)"

text \<open>
  The day-of-month field of the cron schedule \<open>0 2 28-31 * *\<close>: the days the job fires
  on.
\<close>

definition schedule_fires :: "jsdate \<Rightarrow> bool" where
  "schedule_fires d = (28 \<le> getDate d \<and> getDate d \<le> 31)"

text \<open>The callback of the schedule, run at each firing; \<open>now\<close> is the date of the firing.\<close>

definition monthlyPayoutJob :: "env \<Rightarrow> world \<Rightarrow> world" where
  "monthlyPayoutJob e w =
     (let w0 = log w LogStartingMonthlyProcess;
          today = now e;
          tomorrow = setDate today (getDate today + 1)
      in if getDate tomorrow \<noteq> 1 then log w0 LogNotLastDaySkipping
         else (case processMonthlyPayouts e w0 of
                 (Inl err, w') \<Rightarrow> log w' (LogMonthlyJobFailed err)
               | (Inr _, w') \<Rightarrow> w'))"

definition triggerManualPayout :: "env \<Rightarrow> world \<Rightarrow> (error + unit) \<times> world" where
  "triggerManualPayout e w = processMonthlyPayouts e (log w LogTriggeringManual)"

section \<open>server.js\<close>

text \<open>
  The fields the commission recorders read from a Stripe checkout session and from a
  Stripe invoice. The amounts are the integer pence amounts Stripe sends, which binary64
  holds exactly; \<open>0.4\<close> is the binary64 number \<open>to_double (4 / 10)\<close>. An identifier is the number SQLite compares with \<open>users.id\<close>; \<open>None\<close>
  is an absent (or empty) value. \<open>i_created\<close> is the date \<open>new Date(invoice.created * 1000)\<close>,
  and \<open>u_created_at\<close> of a user the date \<open>new Date(user.created_at)\<close>.
\<close>

record session =
  s_metadata_userId :: "nat option"
  s_customer :: "nat option"
  s_amount_total :: int
  s_payment_intent :: "string option"

record invoice =
  i_metadata_userId :: "nat option"
  i_customer :: "nat option"
  i_created :: jsdate
  i_amount_paid :: int
  i_payment_intent :: "string option"

text \<open>\<open>a || b\<close> on identifiers.\<close>

definition js_or :: "'a option \<Rightarrow> 'a option \<Rightarrow> 'a option" where
  "js_or a b = (case a of Some x \<Rightarrow> Some x | None \<Rightarrow> b)"

text \<open>
  The guard \<open>!user || !user.referrer_id\<close>: it lets a user pass that exists and whose
  referrer is neither \<open>NULL\<close> nor 0. The result is the user row with that referrer.
\<close>

definition with_referrer :: "user option \<Rightarrow> (user \<times> nat) option" where
  "with_referrer user =
     (case user of
        None \<Rightarrow> None
      | Some u \<Rightarrow> (case u_referrer_id u of
                    None \<Rightarrow> None
                  | Some r \<Rightarrow> if r = 0 then None else Some (u, r)))"

definition processAffiliateCommission :: "env \<Rightarrow> session \<Rightarrow> world \<Rightarrow> world" where
  "processAffiliateCommission e session w =
     (case js_or (s_metadata_userId session) (s_customer session) of
        None \<Rightarrow> log w LogNoUserIdInSession
      | Some userId \<Rightarrow>
          (case getUserById e userId w of
             (Inl err, w') \<Rightarrow> log w' (LogFailedAffiliateCommission err)
           | (Inr user, w') \<Rightarrow>
               (case with_referrer user of
                  None \<Rightarrow> log w' (LogNoReferralFound userId)
                | Some (u, referrer) \<Rightarrow>
                    let purchaseAmount = to_double (of_int (s_amount_total session) / 100);
                        commissionAmount = to_double (purchaseAmount * to_double (4 / 10))
                    in (case createCommission e referrer userId purchaseAmount commissionAmount
                               (s_payment_intent session) w' of
                          (Inl err, w'') \<Rightarrow> log w'' (LogFailedAffiliateCommission err)
                        | (Inr _, w'') \<Rightarrow>
                            log w'' (LogCommissionRecorded commissionAmount userId)))))"

definition monthsDiff :: "jsdate \<Rightarrow> jsdate \<Rightarrow> int" where
  "monthsDiff subscriptionStart invoiceDate =
     (getFullYear invoiceDate - getFullYear subscriptionStart) * 12
       + (getMonth invoiceDate - getMonth subscriptionStart)"

definition processSubscriptionCommission :: "env \<Rightarrow> invoice \<Rightarrow> world \<Rightarrow> world" where
  "processSubscriptionCommission e invoice w =
     (case js_or (i_metadata_userId invoice) (i_customer invoice) of
        None \<Rightarrow> log w LogNoUserIdInInvoice
      | Some userId \<Rightarrow>
          (case getUserById e userId w of
             (Inl err, w') \<Rightarrow> log w' (LogFailedSubscriptionCommission err)
           | (Inr user, w') \<Rightarrow>
               (case with_referrer user of
                  None \<Rightarrow> log w' (LogNoReferralFound userId)
                | Some (u, referrer) \<Rightarrow>
                    if monthsDiff (u_created_at u) (i_created invoice) \<ge> 3
                    then log w' (LogCommissionPeriodExpired userId)
                    else
                      let purchaseAmount = to_double (of_int (i_amount_paid invoice) / 100);
                          commissionAmount = to_double (purchaseAmount * to_double (4 / 10))
                      in (case createCommission e referrer userId purchaseAmount commissionAmount
                                 (i_payment_intent invoice) w' of
                            (Inl err, w'') \<Rightarrow> log w'' (LogFailedSubscriptionCommission err)
                          | (Inr _, w'') \<Rightarrow>
                              log w'' (LogSubscriptionCommissionRecorded commissionAmount
                                         userId)))))"

text \<open>
  Rounding to the currency precision, two decimal places: the amount a commission is
  compared with below. The code has no such step.
\<close>

definition round_currency :: "rat \<Rightarrow> rat" where
  "round_currency x = of_int (round (x * 100)) / 100"

section \<open>Notions used in the statements and proofs\<close>

text \<open>A payout row carries a paid timestamp exactly when its status is \<open>paid\<close>.\<close>

definition payout_paid_at_inv :: "payout list \<Rightarrow> bool" where
  "payout_paid_at_inv ps = list_all (\<lambda>p. (p_paid_at p \<noteq> None) = (p_status p = ''paid'')) ps"

text \<open>
  The sum of \<open>commission_amount\<close> over a user's commissions with status \<open>pending\<close>, as
  the database computes it: SQLite's \<open>SUM\<close> of the stored binary64 values, 0 when there
  are none.
\<close>

definition pending_total :: "env \<Rightarrow> commission list \<Rightarrow> nat \<Rightarrow> rat" where
  "pending_total e cs userId =
     (case sql_SUM e (pending_amounts cs userId) of None \<Rightarrow> 0 | Some t \<Rightarrow> t)"

text \<open>The database statements number \<open>n\<close> to \<open>n + k - 1\<close> all succeed.\<close>

fun db_ok :: "env \<Rightarrow> nat \<Rightarrow> nat \<Rightarrow> bool" where
  "db_ok e n 0 = True"
| "db_ok e n (Suc k) = (db_fault e n = None \<and> db_ok e (Suc n) k)"

text \<open>The request \<open>processUserPayout\<close> sends for a user in the state \<open>w\<close>.\<close>

definition payout_request :: "env \<Rightarrow> user \<Rightarrow> world \<Rightarrow> transfer_request" where
  "payout_request e user w =
     transfer_params e user
       (Math_round (to_double (pending_total e (commissions w) (u_id user) * 100)))"

text \<open>
  The state \<open>processUserPayout\<close> leaves when the transfer succeeds with the id \<open>tid\<close>
  and every database statement succeeds: four statements issued, the request sent, one
  \<open>paid\<close> row appended, the user's pending commissions marked \<open>paid\<close>.
\<close>

definition paid_world :: "env \<Rightarrow> user \<Rightarrow> string \<Rightarrow> world \<Rightarrow> world" where
  "paid_world e user tid w =
     w\<lparr>db_calls := db_calls w + 4,
       transfers := transfers w @ [payout_request e user w],
       affiliate_payouts := affiliate_payouts w @
         [\<lparr>p_id = next_rowid (affiliate_payouts_seq w) (map p_id (affiliate_payouts w)),
           p_user_id = u_id user, p_amount = pending_total e (commissions w) (u_id user),
           p_stripe_payout_id = Some tid, p_status = ''paid'',
           p_created_at = now e, p_paid_at = Some (now e)\<rparr>],
       affiliate_payouts_seq :=
         next_rowid (affiliate_payouts_seq w) (map p_id (affiliate_payouts w)),
       commissions :=
         map (\<lambda>c. if c_referrer_id c = u_id user \<and> c_status c = ''pending''
                   then c\<lparr>c_status := ''paid'', c_paid_at := Some (now e)\<rparr> else c)
           (commissions w),
       console := console w @
         [LogProcessingPayout (u_id user) (u_email user),
          LogPayoutProcessed (u_id user) (pending_total e (commissions w) (u_id user)) tid]\<rparr>"

text \<open>
  The state it leaves when the transfer is refused with \<open>err\<close> and every database
  statement succeeds: four statements issued, the request sent, one \<open>failed\<close> row
  appended, the commissions untouched.
\<close>

definition refused_world :: "env \<Rightarrow> user \<Rightarrow> error \<Rightarrow> world \<Rightarrow> world" where
  "refused_world e user err w =
     w\<lparr>db_calls := db_calls w + 4,
       transfers := transfers w @ [payout_request e user w],
       affiliate_payouts := affiliate_payouts w @
         [\<lparr>p_id = next_rowid (affiliate_payouts_seq w) (map p_id (affiliate_payouts w)),
           p_user_id = u_id user, p_amount = pending_total e (commissions w) (u_id user),
           p_stripe_payout_id = None, p_status = ''failed'',
           p_created_at = now e, p_paid_at = None\<rparr>],
       affiliate_payouts_seq :=
         next_rowid (affiliate_payouts_seq w) (map p_id (affiliate_payouts w)),
       console := console w @
         [LogProcessingPayout (u_id user) (u_email user),
          LogPayoutFailed (u_id user) err]\<rparr>"

text \<open>
  The payout row the \<open>try\<close> block of \<open>processUserPayout\<close> has written when a statement
  after \<open>createPayout\<close> fails: marked \<open>paid\<close> when the status update (the third
  statement) succeeded, still \<open>pending\<close> when it is the one that failed.
\<close>

definition try_row :: "env \<Rightarrow> user \<Rightarrow> string \<Rightarrow> world \<Rightarrow> payout" where
  "try_row e user tid w =
     (let updated = (db_fault e (db_calls w + 2) = None) in
      \<lparr>p_id = next_rowid (affiliate_payouts_seq w) (map p_id (affiliate_payouts w)),
       p_user_id = u_id user, p_amount = pending_total e (commissions w) (u_id user),
       p_stripe_payout_id = (if updated then Some tid else None),
       p_status = (if updated then ''paid'' else ''pending''),
       p_created_at = now e,
       p_paid_at = (if updated then Some (now e) else None)\<rparr>)"

section \<open>Example data\<close>

definition date0 :: jsdate where
  "date0 = \<lparr>getFullYear = 2024, getMonth = 0, getDate = 31\<rparr>"

text \<open>An environment in which no database statement fails and every transfer succeeds.\<close>

definition env_ok :: env where
  "env_ok = \<lparr>now = date0, toLocaleDateString = ''31/01/2024'',
             db_fault = (\<lambda>n. None),
             stripe_transfers_create = (\<lambda>n r. Inr ''tr_1''),
             sqlite_SUM = double_sum\<rparr>"

text \<open>The same on the day before: 30 January is not the last day of its month.\<close>

definition env_day30 :: env where
  "env_day30 = env_ok\<lparr>now := \<lparr>getFullYear = 2024, getMonth = 0, getDate = 30\<rparr>\<rparr>"

text \<open>The same, but the second transfer request is refused.\<close>

definition env_second_transfer_fails :: env where
  "env_second_transfer_fails =
     env_ok\<lparr>stripe_transfers_create :=
              (\<lambda>n r. if n = 1 then Inl (Error ''transfer refused'') else Inr ''tr_1'')\<rparr>"

text \<open>The same as \<open>env_ok\<close>, but every transfer request is refused.\<close>

definition env_transfer_fails :: env where
  "env_transfer_fails =
     env_ok\<lparr>stripe_transfers_create := (\<lambda>n r. Inl (Error ''transfer refused''))\<rparr>"

text \<open>The same as \<open>env_ok\<close>, but the fourth database statement fails.\<close>

definition env_fourth_statement_fails :: env where
  "env_fourth_statement_fails =
     env_ok\<lparr>db_fault := (\<lambda>n. if n = 3 then Some (Error ''SQLITE_BUSY'') else None)\<rparr>"

definition world_empty :: world where
  "world_empty = \<lparr>users = [], commissions = [], commissions_seq = 0,
                  affiliate_payouts = [], affiliate_payouts_seq = 0,
                  transfers = [], console = [], db_calls = 0\<rparr>"

definition mk_user :: "nat \<Rightarrow> nat option \<Rightarrow> string option \<Rightarrow> user" where
  "mk_user i r a =
     \<lparr>u_id = i, u_email = ''user@example.com'', u_referrer_id = r, u_stripe_account_id = a,
      u_created_at = \<lparr>getFullYear = 2024, getMonth = 0, getDate = 15\<rparr>\<rparr>"

definition mk_commission :: "nat \<Rightarrow> nat \<Rightarrow> rat \<Rightarrow> string \<Rightarrow> jsdate option \<Rightarrow> commission" where
  "mk_commission i r a st pd =
     \<lparr>c_id = i, c_referrer_id = r, c_referred_user_id = 9, c_purchase_amount = a * (10 / 4),
      c_commission_amount = a, c_status = st, c_stripe_payment_intent_id = None,
      c_created_at = \<lparr>getFullYear = 2024, getMonth = 0, getDate = 20\<rparr>, c_paid_at = pd\<rparr>"

text \<open>
  Four users: user 1 has exactly 50 pending, user 2 has 70 in two commissions, user 3
  has 60 pending and 10 paid, user 4 has 80 pending and no payment account; user 5 was
  referred by user 1 and has no commissions.
\<close>

definition world_ledger :: world where
  "world_ledger =
     \<lparr>users = [mk_user 1 None (Some ''acct_1''), mk_user 2 (Some 1) (Some ''acct_2''),
               mk_user 3 (Some 1) (Some ''acct_3''), mk_user 4 None None,
               mk_user 5 (Some 1) (Some ''acct_5'')],
      commissions = [mk_commission 1 1 50 ''pending'' None,
                     mk_commission 2 2 30 ''pending'' None,
                     mk_commission 3 2 40 ''pending'' None,
                     mk_commission 4 3 60 ''pending'' None,
                     mk_commission 5 3 10 ''paid''
                       (Some \<lparr>getFullYear = 2023, getMonth = 11, getDate = 31\<rparr>),
                     mk_commission 6 4 80 ''pending'' None],
      commissions_seq = 6,
      affiliate_payouts =
        [\<lparr>p_id = 1, p_user_id = 3, p_amount = 10, p_stripe_payout_id = Some ''tr_0'',
          p_status = ''paid'',
          p_created_at = \<lparr>getFullYear = 2023, getMonth = 11, getDate = 31\<rparr>,
          p_paid_at = Some \<lparr>getFullYear = 2023, getMonth = 11, getDate = 31\<rparr>\<rparr>],
      affiliate_payouts_seq = 1,
      transfers = [], console = [], db_calls = 0\<rparr>"

definition user2 :: user where
  "user2 = mk_user 2 (Some 1) (Some ''acct_2'')"

text \<open>
  A checkout session of 9.99 paid by user 2, whom user 1 referred, and two invoices of
  the same user, whose account was created on 15 January 2024: one of 10 April 2024, one
  of 31 March 2024.
\<close>

definition session_999 :: session where
  "session_999 = \<lparr>s_metadata_userId = Some 2, s_customer = None, s_amount_total = 999,
                   s_payment_intent = Some ''pi_1''\<rparr>"

definition invoice_april :: invoice where
  "invoice_april = \<lparr>i_metadata_userId = Some 2, i_customer = None,
                     i_created = \<lparr>getFullYear = 2024, getMonth = 3, getDate = 10\<rparr>,
                     i_amount_paid = 2000, i_payment_intent = Some ''pi_2''\<rparr>"

definition invoice_march :: invoice where
  "invoice_march = invoice_april\<lparr>i_created := \<lparr>getFullYear = 2024, getMonth = 2, getDate = 31\<rparr>\<rparr>"




definition user1 :: user where
  "user1 = mk_user 1 None (Some ''acct_1'')"

definition user3 :: user where
  "user3 = mk_user 3 (Some 1) (Some ''acct_3'')"

definition user5 :: user where
  "user5 = mk_user 5 (Some 1) (Some ''acct_5'')"



section \<open>The database operations\<close>

lemma db_call_ok:
  "db_fault e (db_calls w) = None \<Longrightarrow>
   db_call e w f = (case f (w\<lparr>db_calls := Suc (db_calls w)\<rparr>) of (a, w'') \<Rightarrow> (Inr a, w''))"
  by (simp add: db_call_def)

lemma db_call_fault:
  "db_fault e (db_calls w) = Some err \<Longrightarrow>
   db_call e w f = (Inl err, w\<lparr>db_calls := Suc (db_calls w)\<rparr>)"
  by (simp add: db_call_def)

lemma createPayout_payouts:
  "affiliate_payouts (snd (createPayout e userId amount w)) =
     (case db_fault e (db_calls w) of
        Some err \<Rightarrow> affiliate_payouts w
      | None \<Rightarrow> affiliate_payouts w @
          [\<lparr>p_id = next_rowid (affiliate_payouts_seq w) (map p_id (affiliate_payouts w)),
            p_user_id = userId, p_amount = amount, p_stripe_payout_id = None,
            p_status = ''pending'', p_created_at = now e, p_paid_at = None\<rparr>])"
  by (simp add: createPayout_def db_call_def Let_def split: option.split)

lemma updatePayoutStatus_payouts:
  "affiliate_payouts (snd (updatePayoutStatus e payoutId status stripePayoutId w)) =
     (case db_fault e (db_calls w) of
        Some err \<Rightarrow> affiliate_payouts w
      | None \<Rightarrow>
          map (\<lambda>p. if p_id p = payoutId
                    then p\<lparr>p_status := status, p_stripe_payout_id := stripePayoutId,
                           p_paid_at := (if status = ''paid'' then Some (now e) else None)\<rparr>
                    else p)
            (affiliate_payouts w))"
  by (simp add: updatePayoutStatus_def db_call_def Let_def split: option.split)

text \<open>
  Claim C9. Every operation on the payout table keeps the invariant that a row has a
  paid timestamp exactly when its status is \<open>paid\<close>. \<open>createPayout\<close>, when the insert
  succeeds, appends one row with status \<open>pending\<close> and no paid timestamp and changes no
  other row. \<open>updatePayoutStatus\<close>, when the update succeeds, gives every row with the
  given id the new status, and the current timestamp as \<open>paid_at\<close> exactly when the new
  status is \<open>paid\<close>, \<open>NULL\<close> for any other status, \<open>failed\<close> included; rows with another
  id are unchanged. A statement that fails changes no row.
\<close>

theorem payout_operations_keep_paid_at_invariant:
  assumes "payout_paid_at_inv (affiliate_payouts w)"
  shows "payout_paid_at_inv (affiliate_payouts (snd (createPayout e userId amount w)))
    \<and> payout_paid_at_inv
          (affiliate_payouts (snd (updatePayoutStatus e payoutId status stripePayoutId w)))
    \<and> (db_fault e (db_calls w) = None \<longrightarrow>
         (\<exists>r. affiliate_payouts (snd (createPayout e userId amount w))
                = affiliate_payouts w @ [r]
            \<and> p_user_id r = userId \<and> p_amount r = amount
            \<and> p_status r = ''pending'' \<and> p_paid_at r = None))
    \<and> (db_fault e (db_calls w) = None \<longrightarrow>
         length (affiliate_payouts (snd (updatePayoutStatus e payoutId status stripePayoutId w)))
           = length (affiliate_payouts w)
         \<and> (\<forall>i < length (affiliate_payouts w).
              let p = affiliate_payouts w ! i;
                  p' = affiliate_payouts
                         (snd (updatePayoutStatus e payoutId status stripePayoutId w)) ! i
              in if p_id p = payoutId
                 then p_status p' = status
                    \<and> p_paid_at p' = (if status = ''paid'' then Some (now e) else None)
                    \<and> (status = ''failed'' \<longrightarrow> p_paid_at p' = None)
                 else p' = p))
    \<and> (db_fault e (db_calls w) \<noteq> None \<longrightarrow>
         affiliate_payouts (snd (createPayout e userId amount w)) = affiliate_payouts w
         \<and> affiliate_payouts (snd (updatePayoutStatus e payoutId status stripePayoutId w))
             = affiliate_payouts w)"
proof -
  have "payout_paid_at_inv (affiliate_payouts (snd (createPayout e userId amount w)))"
    using assms
    by (simp add: createPayout_payouts payout_paid_at_inv_def split: option.split)
  moreover have "payout_paid_at_inv
          (affiliate_payouts (snd (updatePayoutStatus e payoutId status stripePayoutId w)))"
    using assms
    by (auto simp: updatePayoutStatus_payouts payout_paid_at_inv_def list_all_iff
        split: option.split)
  moreover have "db_fault e (db_calls w) = None \<longrightarrow>
        (\<exists>r. affiliate_payouts (snd (createPayout e userId amount w))
               = affiliate_payouts w @ [r]
           \<and> p_user_id r = userId \<and> p_amount r = amount
           \<and> p_status r = ''pending'' \<and> p_paid_at r = None)"
    by (simp add: createPayout_payouts)
  moreover have "db_fault e (db_calls w) = None \<longrightarrow>
         length (affiliate_payouts (snd (updatePayoutStatus e payoutId status stripePayoutId w)))
           = length (affiliate_payouts w)
         \<and> (\<forall>i < length (affiliate_payouts w).
              let p = affiliate_payouts w ! i;
                  p' = affiliate_payouts
                         (snd (updatePayoutStatus e payoutId status stripePayoutId w)) ! i
              in if p_id p = payoutId
                 then p_status p' = status
                    \<and> p_paid_at p' = (if status = ''paid'' then Some (now e) else None)
                    \<and> (status = ''failed'' \<longrightarrow> p_paid_at p' = None)
                 else p' = p)"
    by (simp add: updatePayoutStatus_payouts Let_def)
  moreover have "db_fault e (db_calls w) \<noteq> None \<longrightarrow>
         affiliate_payouts (snd (createPayout e userId amount w)) = affiliate_payouts w
         \<and> affiliate_payouts (snd (updatePayoutStatus e payoutId status stripePayoutId w))
             = affiliate_payouts w"
    by (auto simp: createPayout_payouts updatePayoutStatus_payouts)
  ultimately show ?thesis by blast
qed

lemmas example_defs =
  env_ok_def env_day30_def env_second_transfer_fails_def env_transfer_fails_def env_fourth_statement_fails_def
  world_ledger_def world_empty_def mk_user_def mk_commission_def date0_def
  user1_def user2_def user3_def user5_def session_999_def invoice_april_def invoice_march_def

lemma to_double_small:
  "to_double 10 = 10" "to_double 30 = 30" "to_double 40 = 40" "to_double 50 = 50"
  "to_double 60 = 60" "to_double 70 = 70" "to_double 80 = 80"
  by code_simp+

lemma example_SUM:
  "sqlite_SUM env_ok = double_sum" "sqlite_SUM env_day30 = double_sum"
  "sqlite_SUM env_second_transfer_fails = double_sum"
  "sqlite_SUM env_transfer_fails = double_sum"
  "sqlite_SUM env_fourth_statement_fails = double_sum"
  by (simp_all add: example_defs)

lemma ledger_totals:
  assumes "sqlite_SUM e = double_sum"
  shows "pending_total e (commissions world_ledger) 1 = 50"
    and "pending_total e (commissions world_ledger) (Suc 0) = 50"
    and "pending_total e (commissions world_ledger) 2 = 70"
    and "pending_total e (commissions world_ledger) 3 = 60"
    and "pending_total e (commissions world_ledger) 4 = 80"
    and "pending_total e (commissions world_ledger) 5 = 0"
  using assms
  by (simp_all add: pending_total_def sql_SUM_def pending_amounts_def double_sum_def
      world_ledger_def mk_commission_def to_double_small)

lemma example_ids:
  "u_id user1 = 1" "u_id user2 = 2" "u_id user3 = 3" "u_id user5 = 5"
  by (simp_all add: example_defs)

theorem payout_operations_keep_paid_at_invariant_witness:
  "payout_paid_at_inv (affiliate_payouts world_ledger)
   \<and> db_fault env_ok (db_calls world_ledger) = None
   \<and> payout_paid_at_inv (affiliate_payouts (snd (createPayout env_ok 2 70 world_ledger)))
   \<and> payout_paid_at_inv
        (affiliate_payouts (snd (updatePayoutStatus env_ok 1 ''failed'' None world_ledger)))
   \<and> map p_status (affiliate_payouts (snd (createPayout env_ok 2 70 world_ledger)))
        = [''paid'', ''pending'']
   \<and> map p_paid_at (affiliate_payouts (snd (updatePayoutStatus env_ok 1 ''failed'' None world_ledger)))
        = [None]"
proof -
  have h: "payout_paid_at_inv (affiliate_payouts world_ledger)"
    by (simp add: world_ledger_def payout_paid_at_inv_def)
  show ?thesis
    using payout_operations_keep_paid_at_invariant[OF h, of env_ok 2 70 1 "''failed''" None] h
    by (simp add: example_defs createPayout_payouts updatePayoutStatus_payouts)
qed

section \<open>The payout of one user\<close>

text \<open>
  In the statements of this section the pending sum of a user is \<open>pending_total\<close>, the
  sum the database returns for the user's \<open>pending\<close> commissions; the amount sent to
  the payment rail is \<open>Math.round\<close> of the binary64 product of that sum and 100.
\<close>

lemma fold_max_mono: "s \<le> fold max ids (s::nat)"
  by (induction ids arbitrary: s) (auto intro: order_trans[OF max.cobounded2])

lemma fold_max_ge: "x \<in> set ids \<Longrightarrow> x \<le> fold max ids (seq::nat)"
proof (induction ids arbitrary: seq)
  case Nil
  then show ?case by simp
next
  case (Cons a ids)
  then show ?case
    by (auto intro: order_trans[OF max.cobounded1 fold_max_mono])
qed

lemma next_rowid_fresh: "x \<in> set ids \<Longrightarrow> (x = next_rowid seq ids) = False"
  using fold_max_ge[of x ids seq] by (simp add: next_rowid_def)

lemma update_fresh_rows:
  "p_id ` set ps \<subseteq> set ids \<Longrightarrow>
   map (\<lambda>p. if p_id p = next_rowid seq ids then f p else p) ps = ps"
proof (rule map_idI)
  fix p assume "p_id ` set ps \<subseteq> set ids" "p \<in> set ps"
  then have "p_id p \<in> set ids" by auto
  from next_rowid_fresh[OF this, of seq]
  show "(if p_id p = next_rowid seq ids then f p else p) = p" by simp
qed

lemma update_fresh_rows_app:
  "map (\<lambda>p. if p_id p = next_rowid seq (map p_id ps @ ids) then f p else p) ps = ps"
  by (rule update_fresh_rows) auto

lemma update_fresh_rows_same:
  "map (\<lambda>p. if p_id p = next_rowid seq (map p_id ps) then f p else p) ps = ps"
  by (rule update_fresh_rows) auto

lemma next_rowid_fresh_last: "(x = next_rowid seq (ids @ [x])) = False"
  by (rule next_rowid_fresh) simp

lemma next_rowid_fresh_last': "(next_rowid seq (ids @ [x]) = x) = False"
  using next_rowid_fresh_last[of x seq ids] by auto

lemma getTotal_ok:
  "db_fault e (db_calls w) = None \<Longrightarrow>
   getTotalPendingCommissions e userId w =
     (Inr (pending_total e (commissions w) userId), w\<lparr>db_calls := Suc (db_calls w)\<rparr>)"
  by (simp add: getTotalPendingCommissions_def db_call_def pending_total_def Let_def
      split: option.split)

lemmas payout_defs =
  processUserPayout_def processUserPayout_try_def processUserPayout_catch_def bind_def log_def
  transfers_create_def createPayout_def updatePayoutStatus_def updateCommissionsToPaid_def
  db_call_def Let_def payout_request_def

lemma processUserPayout_below:
  assumes "db_fault e (db_calls w) = None" "pending_total e (commissions w) (u_id user) < 50"
  shows "processUserPayout e user w =
     (Inr (), w\<lparr>db_calls := Suc (db_calls w),
               console := console w @ [LogProcessingPayout (u_id user) (u_email user),
                  LogBelowThreshold (u_id user) (pending_total e (commissions w) (u_id user))]\<rparr>)"
  using assms
  by (simp add: processUserPayout_def processUserPayout_try_def bind_def log_def getTotal_ok)

lemma processUserPayout_paid:
  assumes ok: "db_ok e (db_calls w) 4"
    and ge: "50 \<le> pending_total e (commissions w) (u_id user)"
    and tr: "stripe_transfers_create e (length (transfers w)) (payout_request e user w) = Inr tid"
  shows "processUserPayout e user w =
     (Inr (),
      w\<lparr>db_calls := db_calls w + 4,
        transfers := transfers w @ [payout_request e user w],
        affiliate_payouts := affiliate_payouts w @
          [\<lparr>p_id = next_rowid (affiliate_payouts_seq w) (map p_id (affiliate_payouts w)),
            p_user_id = u_id user, p_amount = pending_total e (commissions w) (u_id user),
            p_stripe_payout_id = Some tid, p_status = ''paid'',
            p_created_at = now e, p_paid_at = Some (now e)\<rparr>],
        affiliate_payouts_seq := next_rowid (affiliate_payouts_seq w) (map p_id (affiliate_payouts w)),
        commissions :=
          map (\<lambda>c. if c_referrer_id c = u_id user \<and> c_status c = ''pending''
                    then c\<lparr>c_status := ''paid'', c_paid_at := Some (now e)\<rparr> else c)
            (commissions w),
        console := console w @
          [LogProcessingPayout (u_id user) (u_email user),
           LogPayoutProcessed (u_id user) (pending_total e (commissions w) (u_id user)) tid]\<rparr>)"
  using ok ge tr
  by (simp add: eval_nat_numeral payout_defs getTotal_ok not_less update_fresh_rows_same)

lemma processUserPayout_transfer_refused:
  assumes ok: "db_ok e (db_calls w) 4"
    and ge: "50 \<le> pending_total e (commissions w) (u_id user)"
    and tr: "stripe_transfers_create e (length (transfers w)) (payout_request e user w) = Inl err"
  shows "processUserPayout e user w =
     (Inl err,
      w\<lparr>db_calls := db_calls w + 4,
        transfers := transfers w @ [payout_request e user w],
        affiliate_payouts := affiliate_payouts w @
          [\<lparr>p_id = next_rowid (affiliate_payouts_seq w) (map p_id (affiliate_payouts w)),
            p_user_id = u_id user, p_amount = pending_total e (commissions w) (u_id user),
            p_stripe_payout_id = None, p_status = ''failed'',
            p_created_at = now e, p_paid_at = None\<rparr>],
        affiliate_payouts_seq := next_rowid (affiliate_payouts_seq w) (map p_id (affiliate_payouts w)),
        console := console w @
          [LogProcessingPayout (u_id user) (u_email user),
           LogPayoutFailed (u_id user) err]\<rparr>)"
  using ok ge tr
  by (simp add: eval_nat_numeral payout_defs getTotal_ok not_less update_fresh_rows_same)

lemma processUserPayout_settlement_fails:
  assumes ok: "db_ok e (db_calls w) 3"
    and bad: "db_fault e (db_calls w + 3) = Some err"
    and ok2: "db_ok e (db_calls w + 4) 3"
    and ge: "50 \<le> pending_total e (commissions w) (u_id user)"
    and tr: "stripe_transfers_create e (length (transfers w)) (payout_request e user w) = Inr tid"
  shows "processUserPayout e user w =
     (Inl err,
      w\<lparr>db_calls := db_calls w + 7,
        transfers := transfers w @ [payout_request e user w],
        affiliate_payouts := affiliate_payouts w @
          [\<lparr>p_id = next_rowid (affiliate_payouts_seq w) (map p_id (affiliate_payouts w)),
            p_user_id = u_id user, p_amount = pending_total e (commissions w) (u_id user),
            p_stripe_payout_id = Some tid, p_status = ''paid'',
            p_created_at = now e, p_paid_at = Some (now e)\<rparr>,
           \<lparr>p_id = next_rowid (next_rowid (affiliate_payouts_seq w) (map p_id (affiliate_payouts w)))
                    (map p_id (affiliate_payouts w) @
                       [next_rowid (affiliate_payouts_seq w) (map p_id (affiliate_payouts w))]),
            p_user_id = u_id user, p_amount = pending_total e (commissions w) (u_id user),
            p_stripe_payout_id = None, p_status = ''failed'',
            p_created_at = now e, p_paid_at = None\<rparr>],
        affiliate_payouts_seq :=
          next_rowid (next_rowid (affiliate_payouts_seq w) (map p_id (affiliate_payouts w)))
            (map p_id (affiliate_payouts w) @
               [next_rowid (affiliate_payouts_seq w) (map p_id (affiliate_payouts w))]),
        console := console w @
          [LogProcessingPayout (u_id user) (u_email user),
           LogPayoutFailed (u_id user) err]\<rparr>)"
  using ok ge tr bad ok2
  by (simp add: eval_nat_numeral payout_defs getTotal_ok not_less update_fresh_rows_same
      update_fresh_rows_app next_rowid_fresh_last)

lemma processUserPayout_status_update_fails:
  assumes ok: "db_ok e (db_calls w) 2"
    and bad: "db_fault e (db_calls w + 2) = Some err"
    and ok2: "db_ok e (db_calls w + 3) 3"
    and ge: "50 \<le> pending_total e (commissions w) (u_id user)"
    and tr: "stripe_transfers_create e (length (transfers w)) (payout_request e user w) = Inr tid"
  shows "processUserPayout e user w =
     (Inl err,
      w\<lparr>db_calls := db_calls w + 6,
        transfers := transfers w @ [payout_request e user w],
        affiliate_payouts := affiliate_payouts w @
          [\<lparr>p_id = next_rowid (affiliate_payouts_seq w) (map p_id (affiliate_payouts w)),
            p_user_id = u_id user, p_amount = pending_total e (commissions w) (u_id user),
            p_stripe_payout_id = None, p_status = ''pending'',
            p_created_at = now e, p_paid_at = None\<rparr>,
           \<lparr>p_id = next_rowid (next_rowid (affiliate_payouts_seq w) (map p_id (affiliate_payouts w)))
                    (map p_id (affiliate_payouts w) @
                       [next_rowid (affiliate_payouts_seq w) (map p_id (affiliate_payouts w))]),
            p_user_id = u_id user, p_amount = pending_total e (commissions w) (u_id user),
            p_stripe_payout_id = None, p_status = ''failed'',
            p_created_at = now e, p_paid_at = None\<rparr>],
        affiliate_payouts_seq :=
          next_rowid (next_rowid (affiliate_payouts_seq w) (map p_id (affiliate_payouts w)))
            (map p_id (affiliate_payouts w) @
               [next_rowid (affiliate_payouts_seq w) (map p_id (affiliate_payouts w))]),
        console := console w @
          [LogProcessingPayout (u_id user) (u_email user),
           LogPayoutFailed (u_id user) err]\<rparr>)"
  using ok ge tr bad ok2
  by (simp add: eval_nat_numeral payout_defs getTotal_ok not_less update_fresh_rows_same
      update_fresh_rows_app next_rowid_fresh_last)

lemma pending_amounts_settled:
  "pending_amounts
     (map (\<lambda>c. if c_referrer_id c = userId \<and> c_status c = ''pending''
               then c\<lparr>c_status := ''paid'', c_paid_at := t\<rparr> else c) cs) userId = []"
  by (induction cs) (auto simp: pending_amounts_def)

lemma pending_total_settled:
  "pending_total e
     (map (\<lambda>c. if c_referrer_id c = userId \<and> c_status c = ''pending''
               then c\<lparr>c_status := ''paid'', c_paid_at := t\<rparr> else c) cs) userId = 0"
  by (simp add: pending_total_def pending_amounts_settled sql_SUM_def)

text \<open>
  Claim C7. \<open>processUserPayout\<close> first reads the user's pending commission sum again.
  When that read succeeds and the sum is below 50, the call returns without an error and
  nothing but the console and the statement counter has changed: no transfer request is
  sent, no payout row is created, no commission row is modified. The console receives
  the two messages of the skipped user.
\<close>

theorem below_threshold_is_skipped_without_effect:
  assumes "db_fault e (db_calls w) = None"
    and "pending_total e (commissions w) (u_id user) < 50"
  shows "\<exists>w'. processUserPayout e user w = (Inr (), w')
     \<and> transfers w' = transfers w
     \<and> affiliate_payouts w' = affiliate_payouts w
     \<and> affiliate_payouts_seq w' = affiliate_payouts_seq w
     \<and> commissions w' = commissions w
     \<and> commissions_seq w' = commissions_seq w
     \<and> users w' = users w
     \<and> db_calls w' = Suc (db_calls w)
     \<and> console w' = console w @
          [LogProcessingPayout (u_id user) (u_email user),
           LogBelowThreshold (u_id user) (pending_total e (commissions w) (u_id user))]"
  by (simp add: processUserPayout_below[OF assms])

theorem below_threshold_is_skipped_without_effect_witness:
  "db_fault env_ok (db_calls world_ledger) = None
   \<and> pending_total env_ok (commissions world_ledger) (u_id user5) < 50
   \<and> (\<exists>w'. processUserPayout env_ok user5 world_ledger = (Inr (), w')
         \<and> transfers w' = transfers world_ledger
         \<and> affiliate_payouts w' = affiliate_payouts world_ledger
         \<and> commissions w' = commissions world_ledger)"
proof -
  have h1: "db_fault env_ok (db_calls world_ledger) = None"
    by (simp add: env_ok_def)
  have h2: "pending_total env_ok (commissions world_ledger) (u_id user5) < 50"
    by (simp add: ledger_totals example_SUM example_ids)
  show ?thesis
    using below_threshold_is_skipped_without_effect[OF h1 h2] h1 h2 by blast
qed

lemma commissions_catch:
  "commissions (snd (processUserPayout_catch e user err w)) = commissions w
   \<and> (\<exists>err'. fst (processUserPayout_catch e user err w) = Inl err')"
  by (simp add: processUserPayout_catch_def bind_def log_def getTotalPendingCommissions_def
      createPayout_def updatePayoutStatus_def db_call_def Let_def
      split: option.split sum.split prod.split)

lemma refused_transfer_never_settles:
  assumes "50 \<le> pending_total e (commissions w) (u_id user)"
    and "stripe_transfers_create e (length (transfers w)) (payout_request e user w) = Inl err"
  shows "commissions (snd (processUserPayout e user w)) = commissions w
       \<and> (\<exists>err'. fst (processUserPayout e user w) = Inl err')"
proof (cases "db_fault e (db_calls w)")
  case None
  have "processUserPayout_try e user w
      = (Inl err, w\<lparr>db_calls := Suc (db_calls w),
                    transfers := transfers w @ [payout_request e user w],
                    console := console w @ [LogProcessingPayout (u_id user) (u_email user)]\<rparr>)"
    using assms None
    by (simp add: processUserPayout_try_def bind_def log_def getTotal_ok transfers_create_def
        payout_request_def not_less Let_def)
  then show ?thesis
    using commissions_catch[of e user err]
    by (simp add: processUserPayout_def)
next
  case (Some err0)
  have "processUserPayout_try e user w
      = (Inl err0, w\<lparr>db_calls := Suc (db_calls w),
                    console := console w @ [LogProcessingPayout (u_id user) (u_email user)]\<rparr>)"
    using Some
    by (simp add: processUserPayout_try_def bind_def log_def getTotalPendingCommissions_def
        db_call_def)
  then show ?thesis
    using commissions_catch[of e user err0]
    by (simp add: processUserPayout_def)
qed

lemma try_fails_catch_throws:
  "processUserPayout_try e user w = (Inl err, w') \<Longrightarrow>
   \<exists>err'. fst (processUserPayout e user w) = Inl err'"
  using commissions_catch[of e user err w'] by (simp add: processUserPayout_def)

lemma try_fails_without_db_ok:
  assumes "50 \<le> pending_total e (commissions w) (u_id user)"
    and "stripe_transfers_create e (length (transfers w)) (payout_request e user w) = Inr tid"
    and "\<not> db_ok e (db_calls w) 4"
  shows "\<exists>err w'. processUserPayout_try e user w = (Inl err, w')"
proof (cases "db_fault e (db_calls w)")
  case (Some a)
  then show ?thesis
    by (simp add: processUserPayout_try_def bind_def log_def getTotalPendingCommissions_def
        db_call_def)
next
  case None
  show ?thesis
    using assms None
    by (auto simp: processUserPayout_try_def bind_def log_def getTotal_ok transfers_create_def
        payout_request_def not_less Let_def createPayout_def updatePayoutStatus_def
        updateCommissionsToPaid_def db_call_def eval_nat_numeral
        split: option.split)
qed

text \<open>
  Claim C1. Let the pending sum of the user be at least 50 and let the payment rail
  answer the transfer request with the transfer id \<open>tid\<close>. Then \<open>processUserPayout\<close>
  returns without an error exactly when the four database statements of the call
  succeed, and in that case: exactly one payout row is appended, for that user, with
  status \<open>paid\<close>, the transfer id \<open>tid\<close>, the pending sum as amount and a paid timestamp;
  every commission of the user that was \<open>pending\<close> is now \<open>paid\<close> with the current
  timestamp as \<open>paid_at\<close>, every other commission is unchanged, and the user's pending
  sum is 0. The statement does not need the user's payment account: the account is only
  the destination of the request.
\<close>

theorem successful_transfer_settles_commissions_and_records_payout:
  assumes "50 \<le> pending_total e (commissions w) (u_id user)"
    and "stripe_transfers_create e (length (transfers w)) (payout_request e user w) = Inr tid"
  shows "(fst (processUserPayout e user w) = Inr ()) = db_ok e (db_calls w) 4
     \<and> (db_ok e (db_calls w) 4 \<longrightarrow>
          (\<exists>w' r. processUserPayout e user w = (Inr (), w')
             \<and> affiliate_payouts w' = affiliate_payouts w @ [r]
             \<and> p_user_id r = u_id user \<and> p_status r = ''paid''
             \<and> p_stripe_payout_id r = Some tid
             \<and> p_amount r = pending_total e (commissions w) (u_id user) \<and> p_paid_at r \<noteq> None
             \<and> length (commissions w') = length (commissions w)
             \<and> (\<forall>i < length (commissions w).
                  let c = commissions w ! i; c' = commissions w' ! i
                  in if c_referrer_id c = u_id user \<and> c_status c = ''pending''
                     then c' = c\<lparr>c_status := ''paid'', c_paid_at := Some (now e)\<rparr>
                     else c' = c)
             \<and> pending_total e (commissions w') (u_id user) = 0
             \<and> transfers w' = transfers w @ [payout_request e user w]))"
proof -
  have ok: "\<exists>w' r. processUserPayout e user w = (Inr (), w')
             \<and> affiliate_payouts w' = affiliate_payouts w @ [r]
             \<and> p_user_id r = u_id user \<and> p_status r = ''paid''
             \<and> p_stripe_payout_id r = Some tid
             \<and> p_amount r = pending_total e (commissions w) (u_id user) \<and> p_paid_at r \<noteq> None
             \<and> length (commissions w') = length (commissions w)
             \<and> (\<forall>i < length (commissions w).
                  let c = commissions w ! i; c' = commissions w' ! i
                  in if c_referrer_id c = u_id user \<and> c_status c = ''pending''
                     then c' = c\<lparr>c_status := ''paid'', c_paid_at := Some (now e)\<rparr>
                     else c' = c)
             \<and> pending_total e (commissions w') (u_id user) = 0
             \<and> transfers w' = transfers w @ [payout_request e user w]"
    if h: "db_ok e (db_calls w) 4"
    by (simp add: processUserPayout_paid[OF h assms] pending_total_settled Let_def)
  have "fst (processUserPayout e user w) \<noteq> Inr ()" if "\<not> db_ok e (db_calls w) 4"
    using try_fails_without_db_ok[OF assms that] try_fails_catch_throws[of e user w] by auto
  moreover have "fst (processUserPayout e user w) = Inr ()" if "db_ok e (db_calls w) 4"
    using ok[OF that] by auto
  ultimately show ?thesis
    using ok by blast
qed

theorem successful_transfer_settles_commissions_and_records_payout_witness:
  "db_ok env_ok (db_calls world_ledger) 4
   \<and> 50 \<le> pending_total env_ok (commissions world_ledger) (u_id user2)
   \<and> stripe_transfers_create env_ok (length (transfers world_ledger))
        (payout_request env_ok user2 world_ledger) = Inr ''tr_1''
   \<and> (\<exists>w' r. processUserPayout env_ok user2 world_ledger = (Inr (), w')
         \<and> affiliate_payouts w' = affiliate_payouts world_ledger @ [r]
         \<and> p_user_id r = 2 \<and> p_status r = ''paid'' \<and> p_stripe_payout_id r = Some ''tr_1''
         \<and> p_amount r = 70
         \<and> pending_total env_ok (commissions w') 2 = 0)"
proof -
  have h1: "db_ok env_ok (db_calls world_ledger) 4"
    by (simp add: env_ok_def eval_nat_numeral)
  have h2: "50 \<le> pending_total env_ok (commissions world_ledger) (u_id user2)"
    by (simp add: ledger_totals example_SUM example_ids)
  have h3: "stripe_transfers_create env_ok (length (transfers world_ledger))
        (payout_request env_ok user2 world_ledger) = Inr ''tr_1''"
    by (simp add: env_ok_def)
  have t: "pending_total env_ok (commissions world_ledger) 2 = 70"
    by (simp add: ledger_totals example_SUM example_ids)
  have u: "u_id user2 = 2" by (simp add: example_defs)
  show ?thesis
    using successful_transfer_settles_commissions_and_records_payout[OF h2 h3] h1 h2 h3
    unfolding u t by blast
qed

text \<open>
  Claim C2. Let the pending sum of the user be at least 50 and let the payment rail refuse
  the transfer request with the error \<open>err\<close>. When the database statements of the call
  succeed, \<open>processUserPayout\<close> throws \<open>err\<close>; one payout row is appended, for that
  user, with status \<open>failed\<close>, no transfer id, no paid timestamp and the pending sum as
  amount, which is the amount whose value in pence was sent to the rail; no commission
  is modified, so the user's pending sum is the same for the next cycle. Whether or not
  the database statements succeed, the call throws and no commission is modified.
\<close>

theorem refused_transfer_records_failed_payout_and_keeps_commissions:
  assumes "50 \<le> pending_total e (commissions w) (u_id user)"
    and "stripe_transfers_create e (length (transfers w)) (payout_request e user w) = Inl err"
  shows "(db_ok e (db_calls w) 4 \<longrightarrow>
          (\<exists>w' r. processUserPayout e user w = (Inl err, w')
             \<and> affiliate_payouts w' = affiliate_payouts w @ [r]
             \<and> p_user_id r = u_id user \<and> p_status r = ''failed''
             \<and> p_amount r = pending_total e (commissions w) (u_id user)
             \<and> p_stripe_payout_id r = None \<and> p_paid_at r = None
             \<and> commissions w' = commissions w
             \<and> pending_total e (commissions w') (u_id user)
                 = pending_total e (commissions w) (u_id user)
             \<and> transfers w' = transfers w @ [payout_request e user w]
             \<and> t_amount (payout_request e user w)
                 = Math_round (to_double (pending_total e (commissions w) (u_id user) * 100))))
       \<and> commissions (snd (processUserPayout e user w)) = commissions w
       \<and> (\<exists>err'. fst (processUserPayout e user w) = Inl err')"
proof -
  have "\<exists>w' r. processUserPayout e user w = (Inl err, w')
             \<and> affiliate_payouts w' = affiliate_payouts w @ [r]
             \<and> p_user_id r = u_id user \<and> p_status r = ''failed''
             \<and> p_amount r = pending_total e (commissions w) (u_id user)
             \<and> p_stripe_payout_id r = None \<and> p_paid_at r = None
             \<and> commissions w' = commissions w
             \<and> pending_total e (commissions w') (u_id user)
                 = pending_total e (commissions w) (u_id user)
             \<and> transfers w' = transfers w @ [payout_request e user w]
             \<and> t_amount (payout_request e user w)
                 = Math_round (to_double (pending_total e (commissions w) (u_id user) * 100))"
    if ok: "db_ok e (db_calls w) 4"
    by (simp add: processUserPayout_transfer_refused[OF ok assms] payout_request_def
        transfer_params_def)
  then show ?thesis
    using refused_transfer_never_settles[OF assms] by blast
qed

theorem refused_transfer_records_failed_payout_and_keeps_commissions_witness:
  "db_ok env_transfer_fails (db_calls world_ledger) 4
   \<and> 50 \<le> pending_total env_transfer_fails (commissions world_ledger) (u_id user2)
   \<and> stripe_transfers_create env_transfer_fails (length (transfers world_ledger))
        (payout_request env_transfer_fails user2 world_ledger) = Inl (Error ''transfer refused'')
   \<and> (\<exists>w' r. processUserPayout env_transfer_fails user2 world_ledger
                = (Inl (Error ''transfer refused''), w')
         \<and> affiliate_payouts w' = affiliate_payouts world_ledger @ [r]
         \<and> p_user_id r = 2 \<and> p_status r = ''failed'' \<and> p_amount r = 70
         \<and> commissions w' = commissions world_ledger)"
proof -
  have h1: "db_ok env_transfer_fails (db_calls world_ledger) 4"
    by (simp add: example_defs eval_nat_numeral)
  have h2: "50 \<le> pending_total env_transfer_fails (commissions world_ledger) (u_id user2)"
    by (simp add: ledger_totals example_SUM example_ids)
  have h3: "stripe_transfers_create env_transfer_fails (length (transfers world_ledger))
        (payout_request env_transfer_fails user2 world_ledger) = Inl (Error ''transfer refused'')"
    by (simp add: example_defs)
  have t: "pending_total env_transfer_fails (commissions world_ledger) 2 = 70"
    by (simp add: ledger_totals example_SUM example_ids)
  have u: "u_id user2 = 2" by (simp add: example_defs)
  show ?thesis
    using refused_transfer_records_failed_payout_and_keeps_commissions[OF h2 h3] h1 h2 h3
    unfolding u t by blast
qed

lemma catch_keeps_rows:
  "\<exists>rest. affiliate_payouts (snd (processUserPayout_catch e user err w))
            = affiliate_payouts w @ rest"
  by (simp add: processUserPayout_catch_def bind_def log_def getTotalPendingCommissions_def
      createPayout_def updatePayoutStatus_def db_call_def Let_def update_fresh_rows_same
      split: option.split sum.split prod.split)

lemma try_after_payout_record:
  assumes "50 \<le> pending_total e (commissions w) (u_id user)"
    and "stripe_transfers_create e (length (transfers w)) (payout_request e user w) = Inr tid"
    and "db_ok e (db_calls w) 2"
    and "db_fault e (db_calls w + 2) = Some err
       \<or> (db_fault e (db_calls w + 2) = None \<and> db_fault e (db_calls w + 3) = Some err)"
  shows "\<exists>w1. processUserPayout_try e user w = (Inl err, w1)
     \<and> affiliate_payouts w1 = affiliate_payouts w @ [try_row e user tid w]
     \<and> commissions w1 = commissions w"
  using assms
  by (auto simp: processUserPayout_try_def bind_def log_def getTotal_ok transfers_create_def
      payout_request_def not_less Let_def createPayout_def updatePayoutStatus_def
      updateCommissionsToPaid_def db_call_def eval_nat_numeral try_row_def
      update_fresh_rows_same)

lemma error_after_payout_record_keeps_first_row:
  assumes "50 \<le> pending_total e (commissions w) (u_id user)"
    and "stripe_transfers_create e (length (transfers w)) (payout_request e user w) = Inr tid"
    and "db_ok e (db_calls w) 2"
    and "db_fault e (db_calls w + 2) = Some err
       \<or> (db_fault e (db_calls w + 2) = None \<and> db_fault e (db_calls w + 3) = Some err)"
  shows "\<exists>err' rest. fst (processUserPayout e user w) = Inl err'
     \<and> affiliate_payouts (snd (processUserPayout e user w))
         = affiliate_payouts w @ try_row e user tid w # rest
     \<and> commissions (snd (processUserPayout e user w)) = commissions w"
proof -
  from try_after_payout_record[OF assms] obtain w1 where
    t: "processUserPayout_try e user w = (Inl err, w1)"
    and p: "affiliate_payouts w1 = affiliate_payouts w @ [try_row e user tid w]"
    and c: "commissions w1 = commissions w"
    by blast
  obtain rest where "affiliate_payouts (snd (processUserPayout_catch e user err w1))
            = affiliate_payouts w1 @ rest"
    using catch_keeps_rows by blast
  then show ?thesis
    using commissions_catch[of e user err w1] t p c
    by (auto simp: processUserPayout_def)
qed

lemma error_after_payout_record_two_rows:
  assumes "50 \<le> pending_total e (commissions w) (u_id user)"
    and "stripe_transfers_create e (length (transfers w)) (payout_request e user w) = Inr tid"
    and "db_ok e (db_calls w) 2"
    and "(db_fault e (db_calls w + 2) = Some err \<and> db_ok e (db_calls w + 3) 3)
       \<or> (db_fault e (db_calls w + 2) = None \<and> db_fault e (db_calls w + 3) = Some err
          \<and> db_ok e (db_calls w + 4) 3)"
  shows "\<exists>w' r1 r2. processUserPayout e user w = (Inl err, w')
     \<and> affiliate_payouts w' = affiliate_payouts w @ [r1, r2]
     \<and> r1 = (let updated = (db_fault e (db_calls w + 2) = None) in
            \<lparr>p_id = next_rowid (affiliate_payouts_seq w) (map p_id (affiliate_payouts w)),
             p_user_id = u_id user, p_amount = pending_total e (commissions w) (u_id user),
             p_stripe_payout_id = (if updated then Some tid else None),
             p_status = (if updated then ''paid'' else ''pending''),
             p_created_at = now e,
             p_paid_at = (if updated then Some (now e) else None)\<rparr>)
     \<and> p_user_id r2 = u_id user \<and> p_status r2 = ''failed'' \<and> p_paid_at r2 = None
     \<and> p_id r2 \<noteq> p_id r1
     \<and> commissions w' = commissions w
     \<and> transfers w' = transfers w @ [payout_request e user w]"
  using assms(4)
proof
  assume a: "db_fault e (db_calls w + 2) = Some err \<and> db_ok e (db_calls w + 3) 3"
  show ?thesis
    using a
    by (simp add: processUserPayout_status_update_fails[OF assms(3) _ _ assms(1,2), of err]
        next_rowid_fresh_last')
next
  assume a: "db_fault e (db_calls w + 2) = None \<and> db_fault e (db_calls w + 3) = Some err
          \<and> db_ok e (db_calls w + 4) 3"
  have ok3: "db_ok e (db_calls w) 3"
    using assms(3) a by (simp add: eval_nat_numeral)
  show ?thesis
    using a
    by (simp add: processUserPayout_settlement_fails[OF ok3 _ _ assms(1,2), of err]
        next_rowid_fresh_last')
qed

text \<open>
  Claim C10. Let the transfer succeed and the payout row be inserted, and let a later
  statement of the \<open>try\<close> block fail with \<open>err\<close>: the update of the payout status, or the
  bulk update of the commissions after the payout was marked \<open>paid\<close>. Then the call
  throws, no commission is modified, and the row the \<open>try\<close> block wrote stays in the
  table as it was, whatever the \<open>catch\<close> block does: \<open>paid\<close> with the transfer id when
  the commission update failed, still \<open>pending\<close> when the status update failed. When
  the three statements of the \<open>catch\<close> block succeed, the call throws \<open>err\<close> and has
  appended exactly two payout rows for the user: that first row, and a second row with
  status \<open>failed\<close> and another id. The transfer request has been sent.
\<close>

theorem error_after_payout_record_leaves_two_payout_rows:
  assumes "50 \<le> pending_total e (commissions w) (u_id user)"
    and "stripe_transfers_create e (length (transfers w)) (payout_request e user w) = Inr tid"
    and "db_ok e (db_calls w) 2"
    and "db_fault e (db_calls w + 2) = Some err
       \<or> (db_fault e (db_calls w + 2) = None \<and> db_fault e (db_calls w + 3) = Some err)"
  shows "(\<exists>err' rest. fst (processUserPayout e user w) = Inl err'
           \<and> affiliate_payouts (snd (processUserPayout e user w))
               = affiliate_payouts w @ try_row e user tid w # rest
           \<and> commissions (snd (processUserPayout e user w)) = commissions w)
     \<and> (db_ok e (db_calls w + (if db_fault e (db_calls w + 2) = None then 4 else 3)) 3 \<longrightarrow>
          (\<exists>w' r2. processUserPayout e user w = (Inl err, w')
             \<and> affiliate_payouts w' = affiliate_payouts w @ [try_row e user tid w, r2]
             \<and> p_user_id r2 = u_id user \<and> p_status r2 = ''failed'' \<and> p_paid_at r2 = None
             \<and> p_id r2 \<noteq> p_id (try_row e user tid w)
             \<and> commissions w' = commissions w
             \<and> transfers w' = transfers w @ [payout_request e user w]))
     \<and> p_user_id (try_row e user tid w) = u_id user
     \<and> (db_fault e (db_calls w + 2) = None \<longrightarrow>
          p_status (try_row e user tid w) = ''paid''
          \<and> p_stripe_payout_id (try_row e user tid w) = Some tid
          \<and> p_paid_at (try_row e user tid w) \<noteq> None)
     \<and> (db_fault e (db_calls w + 2) \<noteq> None \<longrightarrow>
          p_status (try_row e user tid w) = ''pending'')"
proof -
  have two: "\<exists>w' r2. processUserPayout e user w = (Inl err, w')
             \<and> affiliate_payouts w' = affiliate_payouts w @ [try_row e user tid w, r2]
             \<and> p_user_id r2 = u_id user \<and> p_status r2 = ''failed'' \<and> p_paid_at r2 = None
             \<and> p_id r2 \<noteq> p_id (try_row e user tid w)
             \<and> commissions w' = commissions w
             \<and> transfers w' = transfers w @ [payout_request e user w]"
    if c: "db_ok e (db_calls w + (if db_fault e (db_calls w + 2) = None then 4 else 3)) 3"
  proof -
    have "(db_fault e (db_calls w + 2) = Some err \<and> db_ok e (db_calls w + 3) 3)
       \<or> (db_fault e (db_calls w + 2) = None \<and> db_fault e (db_calls w + 3) = Some err
          \<and> db_ok e (db_calls w + 4) 3)"
      using assms(4) c by auto
    from error_after_payout_record_two_rows[OF assms(1-3) this]
    show ?thesis unfolding try_row_def by blast
  qed
  have first: "\<exists>err' rest. fst (processUserPayout e user w) = Inl err'
           \<and> affiliate_payouts (snd (processUserPayout e user w))
               = affiliate_payouts w @ try_row e user tid w # rest
           \<and> commissions (snd (processUserPayout e user w)) = commissions w"
    by (rule error_after_payout_record_keeps_first_row[OF assms])
  have row: "p_user_id (try_row e user tid w) = u_id user"
    "db_fault e (db_calls w + 2) = None \<longrightarrow>
          p_status (try_row e user tid w) = ''paid''
          \<and> p_stripe_payout_id (try_row e user tid w) = Some tid
          \<and> p_paid_at (try_row e user tid w) \<noteq> None"
    "db_fault e (db_calls w + 2) \<noteq> None \<longrightarrow>
          p_status (try_row e user tid w) = ''pending''"
    by (simp_all add: try_row_def Let_def)
  from first two row show ?thesis
    by blast
qed

theorem error_after_payout_record_leaves_two_payout_rows_witness:
  "50 \<le> pending_total env_fourth_statement_fails (commissions world_ledger) (u_id user2)
   \<and> stripe_transfers_create env_fourth_statement_fails (length (transfers world_ledger))
        (payout_request env_fourth_statement_fails user2 world_ledger) = Inr ''tr_1''
   \<and> db_ok env_fourth_statement_fails (db_calls world_ledger) 2
   \<and> db_fault env_fourth_statement_fails (db_calls world_ledger + 2) = None
   \<and> db_fault env_fourth_statement_fails (db_calls world_ledger + 3) = Some (Error ''SQLITE_BUSY'')
   \<and> db_ok env_fourth_statement_fails (db_calls world_ledger + 4) 3
   \<and> (\<exists>w' r1 r2. processUserPayout env_fourth_statement_fails user2 world_ledger
                = (Inl (Error ''SQLITE_BUSY''), w')
         \<and> affiliate_payouts w' = affiliate_payouts world_ledger @ [r1, r2]
         \<and> p_user_id r1 = 2 \<and> p_status r1 = ''paid''
         \<and> p_user_id r2 = 2 \<and> p_status r2 = ''failed''
         \<and> commissions w' = commissions world_ledger)"
proof -
  have h1: "50 \<le> pending_total env_fourth_statement_fails (commissions world_ledger) (u_id user2)"
    by (simp add: ledger_totals example_SUM example_ids)
  have h2: "stripe_transfers_create env_fourth_statement_fails (length (transfers world_ledger))
        (payout_request env_fourth_statement_fails user2 world_ledger) = Inr ''tr_1''"
    by (simp add: example_defs)
  have h3: "db_ok env_fourth_statement_fails (db_calls world_ledger) 2"
    by (simp add: example_defs eval_nat_numeral)
  have h4: "db_fault env_fourth_statement_fails (db_calls world_ledger + 2) = None"
    by (simp add: example_defs)
  have h5: "db_fault env_fourth_statement_fails (db_calls world_ledger + 3)
              = Some (Error ''SQLITE_BUSY'')"
    by (simp add: example_defs)
  have h6: "db_ok env_fourth_statement_fails (db_calls world_ledger + 4) 3"
    by (simp add: example_defs eval_nat_numeral)
  have u: "u_id user2 = 2" by (simp add: example_defs)
  from h4 h5 have h: "db_fault env_fourth_statement_fails (db_calls world_ledger + 2)
           = Some (Error ''SQLITE_BUSY'')
       \<or> (db_fault env_fourth_statement_fails (db_calls world_ledger + 2) = None
          \<and> db_fault env_fourth_statement_fails (db_calls world_ledger + 3)
              = Some (Error ''SQLITE_BUSY''))"
    by blast
  show ?thesis
    using error_after_payout_record_leaves_two_payout_rows[OF h1 h2 h3 h] h1 h2 h3 h4 h5 h6
    unfolding u by (simp only: if_True simp_thms) blast
qed

section \<open>The eligibility scan\<close>

lemma coalesce_sum:
  "(case sql_SUM e (pending_amounts cs userId) of None \<Rightarrow> 0 | Some t \<Rightarrow> t)
     = pending_total e cs userId"
  by (simp add: pending_total_def)

lemma pending_amounts_no_commissions:
  "(\<forall>c \<in> set cs. c_referrer_id c \<noteq> userId) \<Longrightarrow> pending_amounts cs userId = []"
  by (induction cs) (auto simp: pending_amounts_def)

lemma pending_total_no_commissions:
  "(\<forall>c \<in> set cs. c_referrer_id c \<noteq> userId) \<Longrightarrow> pending_total e cs userId = 0"
  by (simp add: pending_total_def pending_amounts_no_commissions sql_SUM_def)

lemma getEligibleUsers_ok:
  "db_fault e (db_calls w) = None \<Longrightarrow>
   getEligibleUsers e w =
     (Inr (sort_key (\<lambda>r. - snd r)
             (filter (\<lambda>r. snd r \<ge> 50)
                (map (\<lambda>u. (u, pending_total e (commissions w) (u_id u)))
                   (filter (\<lambda>u. u_stripe_account_id u \<noteq> None) (users w))))),
      w\<lparr>db_calls := Suc (db_calls w)\<rparr>)"
  by (simp add: getEligibleUsers_def db_call_def coalesce_sum)

text \<open>
  What the scan computes: when the query succeeds, a user of the table is among its rows
  exactly when the user has a payment account and the sum the database returns for the
  user's \<open>pending\<close> commissions is at least 50. Every row is a user of the table with
  that sum, at least 50, as \<open>total_pending\<close>, and the rows come in descending order of
  it. For a user without commissions the sum is 0.
\<close>

lemma eligibility_scan_rows:
  assumes "db_fault e (db_calls w) = None"
  shows "\<exists>rows w'. getEligibleUsers e w = (Inr rows, w')
     \<and> (\<forall>u \<in> set (users w).
          (u \<in> fst ` set rows)
          = (u_stripe_account_id u \<noteq> None \<and> 50 \<le> pending_total e (commissions w) (u_id u)))
     \<and> (\<forall>r \<in> set rows.
          fst r \<in> set (users w) \<and> snd r = pending_total e (commissions w) (u_id (fst r))
          \<and> 50 \<le> snd r)
     \<and> (\<forall>u \<in> set (users w).
          u_stripe_account_id u \<noteq> None \<and> pending_total e (commissions w) (u_id u) = 50
          \<longrightarrow> u \<in> fst ` set rows)
     \<and> sorted (map (\<lambda>r. - snd r) rows)
     \<and> (\<forall>userId. (\<forall>c \<in> set (commissions w). c_referrer_id c \<noteq> userId)
          \<longrightarrow> pending_total e (commissions w) userId = 0
            \<and> fst (getTotalPendingCommissions e userId w) = Inr 0)"
proof -
  let ?rows = "sort_key (\<lambda>r. - snd r)
             (filter (\<lambda>r. snd r \<ge> 50)
                (map (\<lambda>u. (u, pending_total e (commissions w) (u_id u)))
                   (filter (\<lambda>u. u_stripe_account_id u \<noteq> None) (users w))))"
  have rows: "set ?rows = {(u, pending_total e (commissions w) (u_id u)) | u.
      u \<in> set (users w) \<and> u_stripe_account_id u \<noteq> None
      \<and> 50 \<le> pending_total e (commissions w) (u_id u)}"
    by auto
  have a: "\<forall>u \<in> set (users w).
          (u \<in> fst ` set ?rows)
          = (u_stripe_account_id u \<noteq> None \<and> 50 \<le> pending_total e (commissions w) (u_id u))"
    unfolding rows by force
  have b: "\<forall>r \<in> set ?rows.
          fst r \<in> set (users w) \<and> snd r = pending_total e (commissions w) (u_id (fst r))
          \<and> 50 \<le> snd r"
    unfolding rows by auto
  have c: "\<forall>u \<in> set (users w).
          u_stripe_account_id u \<noteq> None \<and> pending_total e (commissions w) (u_id u) = 50
          \<longrightarrow> u \<in> fst ` set ?rows"
    using a by simp
  have d: "sorted (map (\<lambda>r. - snd r) ?rows)"
    by (rule sorted_sort_key)
  have f: "\<forall>userId. (\<forall>c \<in> set (commissions w). c_referrer_id c \<noteq> userId)
          \<longrightarrow> pending_total e (commissions w) userId = 0
            \<and> fst (getTotalPendingCommissions e userId w) = Inr 0"
    using assms
    by (simp add: pending_total_no_commissions getTotalPendingCommissions_def db_call_def
        sql_SUM_def pending_amounts_no_commissions Let_def)
  show ?thesis
    unfolding getEligibleUsers_ok[OF assms] using a b c d f by blast
qed


section \<open>The batch\<close>

lemma processUserPayout_paid_world:
  assumes "db_ok e (db_calls w) 4"
    and "50 \<le> pending_total e (commissions w) (u_id user)"
    and "stripe_transfers_create e (length (transfers w)) (payout_request e user w) = Inr tid"
  shows "processUserPayout e user w = (Inr (), paid_world e user tid w)"
  unfolding paid_world_def by (rule processUserPayout_paid[OF assms])

lemma processUserPayout_refused_world:
  assumes "db_ok e (db_calls w) 4"
    and "50 \<le> pending_total e (commissions w) (u_id user)"
    and "stripe_transfers_create e (length (transfers w)) (payout_request e user w) = Inl err"
  shows "processUserPayout e user w = (Inl err, refused_world e user err w)"
  unfolding refused_world_def by (rule processUserPayout_transfer_refused[OF assms])

lemma pending_amounts_settled_other:
  "userId \<noteq> other \<Longrightarrow>
   pending_amounts
     (map (\<lambda>c. if c_referrer_id c = other \<and> c_status c = ''pending''
               then c\<lparr>c_status := ''paid'', c_paid_at := t\<rparr> else c) cs) userId
   = pending_amounts cs userId"
  by (induction cs) (auto simp: pending_amounts_def)

lemma pending_total_settled_other:
  "userId \<noteq> other \<Longrightarrow>
   pending_total e
     (map (\<lambda>c. if c_referrer_id c = other \<and> c_status c = ''pending''
               then c\<lparr>c_status := ''paid'', c_paid_at := t\<rparr> else c) cs) userId
   = pending_total e cs userId"
  by (simp add: pending_total_def pending_amounts_settled_other)

lemma db_ok_add: "db_ok e n (j + k) = (db_ok e n j \<and> db_ok e (n + j) k)"
  by (induction j arbitrary: n) auto

lemma console_processUserPayout:
  "\<exists>ms. console (snd (processUserPayout e user w))
     = console w @ LogProcessingPayout (u_id user) (u_email user) # ms"
  by (simp add: payout_defs getTotalPendingCommissions_def
      split: option.split sum.split prod.split)

lemma payout_loop_single:
  "payout_loop e [user] w =
     (case processUserPayout e user w of
        (Inl err, w') \<Rightarrow> log w' (LogFailedToProcessPayout (u_id user) err)
      | (Inr x, w') \<Rightarrow> w')"
  by (simp split: prod.split sum.split)

lemma payout_loop_append:
  "payout_loop e (xs @ ys) w = payout_loop e ys (payout_loop e xs w)"
  by (induction xs arbitrary: w) (auto split: prod.split sum.split)

lemma console_payout_loop_single:
  "\<exists>ms. console (payout_loop e [user] w)
     = console w @ LogProcessingPayout (u_id user) (u_email user) # ms"
proof -
  obtain r w' where r: "processUserPayout e user w = (r, w')"
    by (cases "processUserPayout e user w")
  from console_processUserPayout[of e user w] r obtain ms where
    "console w' = console w @ LogProcessingPayout (u_id user) (u_email user) # ms"
    by auto
  then show ?thesis
    using r by (cases r) (auto simp: log_def)
qed

lemma console_payout_loop: "\<exists>ms. console (payout_loop e us w) = console w @ ms"
proof (induction us arbitrary: w)
  case Nil
  then show ?case by simp
next
  case (Cons u us)
  have "payout_loop e (u # us) w = payout_loop e us (payout_loop e [u] w)"
    using payout_loop_append[of e "[u]" us w] by simp
  moreover obtain ms1 where "console (payout_loop e [u] w) = console w @ ms1"
    using console_payout_loop_single[of e u w] by blast
  moreover obtain ms2 where
    "console (payout_loop e us (payout_loop e [u] w)) = console (payout_loop e [u] w) @ ms2"
    using Cons.IH by blast
  ultimately show ?case by simp
qed

lemma payout_loop_split:
  "payout_loop e (us1 @ u # us2) w = payout_loop e us2 (payout_loop e [u] (payout_loop e us1 w))"
  using payout_loop_append[of e us1 "u # us2" w]
    payout_loop_append[of e "[u]" us2 "payout_loop e us1 w"] by simp

lemma payout_loop_processes:
  "LogProcessingPayout (u_id u) (u_email u) \<in> set (console (payout_loop e (us1 @ u # us2) w))"
proof -
  obtain ms1 where "console (payout_loop e [u] (payout_loop e us1 w))
      = console (payout_loop e us1 w) @ LogProcessingPayout (u_id u) (u_email u) # ms1"
    using console_payout_loop_single by blast
  moreover obtain ms2 where "console (payout_loop e (us1 @ u # us2) w)
      = console (payout_loop e [u] (payout_loop e us1 w)) @ ms2"
    unfolding payout_loop_split using console_payout_loop by blast
  ultimately show ?thesis by simp
qed

lemma payout_loop_logs_failure:
  assumes "processUserPayout e u (payout_loop e us1 w) = (Inl err, w')"
  shows "LogFailedToProcessPayout (u_id u) err
           \<in> set (console (payout_loop e (us1 @ u # us2) w))"
proof -
  have "console (payout_loop e [u] (payout_loop e us1 w))
      = console w' @ [LogFailedToProcessPayout (u_id u) err]"
    using assms by (simp add: log_def)
  moreover obtain ms2 where "console (payout_loop e (us1 @ u # us2) w)
      = console (payout_loop e [u] (payout_loop e us1 w)) @ ms2"
    unfolding payout_loop_split using console_payout_loop by blast
  ultimately show ?thesis by simp
qed

lemma processMonthlyPayouts_result:
  "fst (processMonthlyPayouts e w) =
     (case db_fault e (db_calls w) of Some err \<Rightarrow> Inl err | None \<Rightarrow> Inr ())"
  by (simp add: processMonthlyPayouts_def getEligibleUsers_def db_call_def log_def Let_def
      split: option.split)

lemma three_users:
  assumes d: "u_id u1 \<noteq> u_id u2" "u_id u2 \<noteq> u_id u3" "u_id u1 \<noteq> u_id u3"
    and ge: "50 \<le> pending_total e (commissions w) (u_id u1)"
            "50 \<le> pending_total e (commissions w) (u_id u2)"
            "50 \<le> pending_total e (commissions w) (u_id u3)"
    and ok: "db_ok e (db_calls w) 12"
    and tr1: "stripe_transfers_create e (length (transfers w)) (payout_request e u1 w) = Inr t1"
    and tr2: "stripe_transfers_create e (length (transfers w) + 1) (payout_request e u2 w)
                = Inl err"
    and tr3: "stripe_transfers_create e (length (transfers w) + 2) (payout_request e u3 w)
                = Inr t3"
  shows "payout_loop e [u1, u2, u3] w =
     paid_world e u3 t3
       (log (refused_world e u2 err (paid_world e u1 t1 w))
          (LogFailedToProcessPayout (u_id u2) err))"
proof -
  let ?w1 = "paid_world e u1 t1 w"
  let ?w2 = "log (refused_world e u2 err ?w1) (LogFailedToProcessPayout (u_id u2) err)"
  have ok': "db_ok e (db_calls w) 4" "db_ok e (db_calls w + 4) 4" "db_ok e (db_calls w + 8) 4"
    using ok db_ok_add[of e "db_calls w" 4 8] db_ok_add[of e "db_calls w + 4" 4 4]
    by (simp_all add: add.assoc)
  have s1: "processUserPayout e u1 w = (Inr (), ?w1)"
    by (rule processUserPayout_paid_world[OF ok'(1) ge(1) tr1])
  have r2: "payout_request e u2 ?w1 = payout_request e u2 w"
    using d by (simp add: payout_request_def paid_world_def pending_total_settled_other)
  have s2: "processUserPayout e u2 ?w1 = (Inl err, refused_world e u2 err ?w1)"
  proof (rule processUserPayout_refused_world)
    show "db_ok e (db_calls ?w1) 4" using ok'(2) by (simp add: paid_world_def)
    show "50 \<le> pending_total e (commissions ?w1) (u_id u2)"
      using ge(2) d by (simp add: paid_world_def pending_total_settled_other)
    show "stripe_transfers_create e (length (transfers ?w1)) (payout_request e u2 ?w1) = Inl err"
      unfolding r2 using tr2 by (simp add: paid_world_def)
  qed
  have r3: "payout_request e u3 ?w2 = payout_request e u3 w"
    using d by (simp add: payout_request_def paid_world_def refused_world_def log_def
        pending_total_settled_other)
  have s3: "processUserPayout e u3 ?w2 = (Inr (), paid_world e u3 t3 ?w2)"
  proof (rule processUserPayout_paid_world)
    show "db_ok e (db_calls ?w2) 4"
      using ok'(3) by (simp add: paid_world_def refused_world_def log_def add.commute)
    show "50 \<le> pending_total e (commissions ?w2) (u_id u3)"
      using ge(3) d
      by (simp add: paid_world_def refused_world_def log_def pending_total_settled_other)
    show "stripe_transfers_create e (length (transfers ?w2)) (payout_request e u3 ?w2) = Inr t3"
      unfolding r3 using tr3 by (simp add: paid_world_def refused_world_def log_def)
  qed
  show ?thesis by (simp add: s1 s2 s3)
qed

lemma processMonthlyPayouts_last:
  "db_fault e (db_calls w) = None \<Longrightarrow>
   last (console (snd (processMonthlyPayouts e w)))
     \<in> {LogMonthlyProcessCompleted, LogNoEligibleUsers}"
  by (simp add: processMonthlyPayouts_def getEligibleUsers_def db_call_def log_def Let_def)

lemma processMonthlyPayouts_runs_loop:
  assumes "getEligibleUsers e (log w LogProcessingMonthlyPayouts) = (Inr rows, w1)"
    and "rows \<noteq> []"
  shows "processMonthlyPayouts e w =
     (Inr (),
      log (payout_loop e (map fst rows) (log w1 (LogProcessingPayoutsFor (length rows))))
        LogMonthlyProcessCompleted)"
  using assms by (simp add: processMonthlyPayouts_def)

lemma getEligibleUsers_log:
  "fst (getEligibleUsers e (log w m)) = fst (getEligibleUsers e w)"
  by (simp add: getEligibleUsers_def db_call_def log_def Let_def split: option.split)

lemma getEligibleUsers_Inr_ok:
  "fst (getEligibleUsers e w) = Inr rows \<Longrightarrow> db_fault e (db_calls w) = None"
  by (cases "db_fault e (db_calls w)") (simp_all add: getEligibleUsers_def db_call_def)

lemma batch_processes_every_eligible_user:
  assumes ok: "db_fault e (db_calls w) = None"
    and u: "u \<in> set (users w)" "u_stripe_account_id u \<noteq> None"
      "50 \<le> pending_total e (commissions w) (u_id u)"
  shows "LogProcessingPayout (u_id u) (u_email u)
           \<in> set (console (snd (processMonthlyPayouts e w)))"
proof -
  let ?w0 = "log w LogProcessingMonthlyPayouts"
  have ok0: "db_fault e (db_calls ?w0) = None" using ok by (simp add: log_def)
  from eligibility_scan_rows[OF ok0] obtain rows w1 where
    r: "getEligibleUsers e ?w0 = (Inr rows, w1)"
    and sel: "\<forall>v \<in> set (users ?w0). (v \<in> fst ` set rows)
          = (u_stripe_account_id v \<noteq> None \<and> 50 \<le> pending_total e (commissions ?w0) (u_id v))"
    by blast
  have "u \<in> fst ` set rows"
    using sel u by (simp add: log_def)
  then have m: "u \<in> set (map fst rows)" by simp
  then have ne: "rows \<noteq> []" by auto
  from m obtain us1 us2 where sp: "map fst rows = us1 @ u # us2"
    by (meson split_list)
  have "LogProcessingPayout (u_id u) (u_email u)
      \<in> set (console (payout_loop e (map fst rows)
                  (log w1 (LogProcessingPayoutsFor (length rows)))))"
    unfolding sp by (rule payout_loop_processes)
  then show ?thesis
    by (simp add: processMonthlyPayouts_runs_loop[OF r ne] log_def)
qed

lemma batch_three_users:
  assumes scan: "fst (getEligibleUsers e w) = Inr [(u1, a1), (u2, a2), (u3, a3)]"
    and d: "u_id u1 \<noteq> u_id u2" "u_id u2 \<noteq> u_id u3" "u_id u1 \<noteq> u_id u3"
    and ok: "db_ok e (db_calls w) 13"
    and tr1: "stripe_transfers_create e (length (transfers w)) (payout_request e u1 w) = Inr t1"
    and tr2: "stripe_transfers_create e (length (transfers w) + 1) (payout_request e u2 w)
                = Inl err"
    and tr3: "stripe_transfers_create e (length (transfers w) + 2) (payout_request e u3 w)
                = Inr t3"
  shows "\<exists>w2. commissions w2 = commissions w \<and> affiliate_payouts w2 = affiliate_payouts w
      \<and> processMonthlyPayouts e w =
          (Inr (), log (payout_loop e [u1, u2, u3] w2) LogMonthlyProcessCompleted)
      \<and> payout_loop e [u1, u2, u3] w2 =
           paid_world e u3 t3
             (log (refused_world e u2 err (paid_world e u1 t1 w2))
                (LogFailedToProcessPayout (u_id u2) err))"
proof -
  let ?w0 = "log w LogProcessingMonthlyPayouts"
  let ?rows = "[(u1, a1), (u2, a2), (u3, a3)]"
  have ok0: "db_fault e (db_calls w) = None" and ok12: "db_ok e (Suc (db_calls w)) 12"
    using ok by (simp_all add: eval_nat_numeral)
  have ok0': "db_fault e (db_calls ?w0) = None" using ok0 by (simp add: log_def)
  from eligibility_scan_rows[OF ok0'] obtain rows w1 where
    r: "getEligibleUsers e ?w0 = (Inr rows, w1)"
    and tot: "\<forall>r \<in> set rows. fst r \<in> set (users ?w0)
        \<and> snd r = pending_total e (commissions ?w0) (u_id (fst r)) \<and> 50 \<le> snd r"
    by blast
  have rows: "rows = ?rows"
    using r scan getEligibleUsers_log[of e w LogProcessingMonthlyPayouts] by simp
  have w1: "w1 = ?w0\<lparr>db_calls := Suc (db_calls w)\<rparr>"
    using r getEligibleUsers_ok[OF ok0'] by (simp add: log_def)
  let ?w2 = "log w1 (LogProcessingPayoutsFor (Suc (Suc (Suc 0))))"
  have f: "commissions ?w2 = commissions w" "affiliate_payouts ?w2 = affiliate_payouts w"
    "transfers ?w2 = transfers w" "db_calls ?w2 = Suc (db_calls w)"
    by (simp_all add: w1 log_def)
  have ge: "50 \<le> pending_total e (commissions ?w2) (u_id u1)"
    "50 \<le> pending_total e (commissions ?w2) (u_id u2)"
    "50 \<le> pending_total e (commissions ?w2) (u_id u3)"
    using tot unfolding rows f(1) by (auto simp: log_def)
  have pr: "payout_request e u ?w2 = payout_request e u w" for u
    by (simp add: payout_request_def f(1))
  have loop: "payout_loop e [u1, u2, u3] ?w2 =
           paid_world e u3 t3
             (log (refused_world e u2 err (paid_world e u1 t1 ?w2))
                (LogFailedToProcessPayout (u_id u2) err))"
    by (rule three_users[OF d ge]) (use ok12 tr1 tr2 tr3 in \<open>simp_all add: f pr\<close>)
  have "processMonthlyPayouts e w =
          (Inr (), log (payout_loop e [u1, u2, u3] ?w2) LogMonthlyProcessCompleted)"
    using processMonthlyPayouts_runs_loop[OF r] unfolding rows by simp
  with loop f show ?thesis by blast
qed

lemma payout_loop_never_aborts:
  "payout_loop e (us1 @ u # us2) w =
     payout_loop e us2
       (case processUserPayout e u (payout_loop e us1 w) of
          (Inl err, w') \<Rightarrow> log w' (LogFailedToProcessPayout (u_id u) err)
        | (Inr x, w') \<Rightarrow> w')
   \<and> LogProcessingPayout (u_id u) (u_email u)
       \<in> set (console (payout_loop e (us1 @ u # us2) w))
   \<and> (\<forall>err w'. processUserPayout e u (payout_loop e us1 w) = (Inl err, w') \<longrightarrow>
         LogFailedToProcessPayout (u_id u) err
           \<in> set (console (payout_loop e (us1 @ u # us2) w)))
   \<and> (db_fault e (db_calls w) = None \<longrightarrow>
         fst (processMonthlyPayouts e w) = Inr ()
         \<and> last (console (snd (processMonthlyPayouts e w)))
             \<in> {LogMonthlyProcessCompleted, LogNoEligibleUsers})
   \<and> (u_id u1 \<noteq> u_id u2 \<and> u_id u2 \<noteq> u_id u3 \<and> u_id u1 \<noteq> u_id u3
       \<and> 50 \<le> pending_total e (commissions w) (u_id u1)
       \<and> 50 \<le> pending_total e (commissions w) (u_id u2)
       \<and> 50 \<le> pending_total e (commissions w) (u_id u3)
       \<and> db_ok e (db_calls w) 12
       \<and> stripe_transfers_create e (length (transfers w)) (payout_request e u1 w) = Inr t1
       \<and> stripe_transfers_create e (length (transfers w) + 1) (payout_request e u2 w) = Inl err2
       \<and> stripe_transfers_create e (length (transfers w) + 2) (payout_request e u3 w) = Inr t3
       \<longrightarrow> (\<exists>r1 r2 r3.
             affiliate_payouts (payout_loop e [u1, u2, u3] w) = affiliate_payouts w @ [r1, r2, r3]
             \<and> p_user_id r1 = u_id u1 \<and> p_status r1 = ''paid'' \<and> p_stripe_payout_id r1 = Some t1
             \<and> p_user_id r2 = u_id u2 \<and> p_status r2 = ''failed''
             \<and> p_user_id r3 = u_id u3 \<and> p_status r3 = ''paid'' \<and> p_stripe_payout_id r3 = Some t3
             \<and> pending_total e (commissions (payout_loop e [u1, u2, u3] w)) (u_id u1) = 0
             \<and> pending_total e (commissions (payout_loop e [u1, u2, u3] w)) (u_id u2)
                 = pending_total e (commissions w) (u_id u2)
             \<and> pending_total e (commissions (payout_loop e [u1, u2, u3] w)) (u_id u3) = 0
             \<and> LogFailedToProcessPayout (u_id u2) err2
                 \<in> set (console (payout_loop e [u1, u2, u3] w))))"
proof -
  have a: "payout_loop e (us1 @ u # us2) w =
     payout_loop e us2
       (case processUserPayout e u (payout_loop e us1 w) of
          (Inl err, w') \<Rightarrow> log w' (LogFailedToProcessPayout (u_id u) err)
        | (Inr x, w') \<Rightarrow> w')"
    unfolding payout_loop_split payout_loop_single ..
  have b: "LogProcessingPayout (u_id u) (u_email u)
       \<in> set (console (payout_loop e (us1 @ u # us2) w))"
    by (rule payout_loop_processes)
  have c: "\<forall>err w'. processUserPayout e u (payout_loop e us1 w) = (Inl err, w') \<longrightarrow>
         LogFailedToProcessPayout (u_id u) err
           \<in> set (console (payout_loop e (us1 @ u # us2) w))"
    using payout_loop_logs_failure by blast
  have d: "db_fault e (db_calls w) = None \<longrightarrow>
         fst (processMonthlyPayouts e w) = Inr ()
         \<and> last (console (snd (processMonthlyPayouts e w)))
             \<in> {LogMonthlyProcessCompleted, LogNoEligibleUsers}"
    using processMonthlyPayouts_last[of e w] by (simp add: processMonthlyPayouts_result)
  have f: "u_id u1 \<noteq> u_id u2 \<and> u_id u2 \<noteq> u_id u3 \<and> u_id u1 \<noteq> u_id u3
       \<and> 50 \<le> pending_total e (commissions w) (u_id u1)
       \<and> 50 \<le> pending_total e (commissions w) (u_id u2)
       \<and> 50 \<le> pending_total e (commissions w) (u_id u3)
       \<and> db_ok e (db_calls w) 12
       \<and> stripe_transfers_create e (length (transfers w)) (payout_request e u1 w) = Inr t1
       \<and> stripe_transfers_create e (length (transfers w) + 1) (payout_request e u2 w) = Inl err2
       \<and> stripe_transfers_create e (length (transfers w) + 2) (payout_request e u3 w) = Inr t3
       \<longrightarrow> (\<exists>r1 r2 r3.
             affiliate_payouts (payout_loop e [u1, u2, u3] w) = affiliate_payouts w @ [r1, r2, r3]
             \<and> p_user_id r1 = u_id u1 \<and> p_status r1 = ''paid'' \<and> p_stripe_payout_id r1 = Some t1
             \<and> p_user_id r2 = u_id u2 \<and> p_status r2 = ''failed''
             \<and> p_user_id r3 = u_id u3 \<and> p_status r3 = ''paid'' \<and> p_stripe_payout_id r3 = Some t3
             \<and> pending_total e (commissions (payout_loop e [u1, u2, u3] w)) (u_id u1) = 0
             \<and> pending_total e (commissions (payout_loop e [u1, u2, u3] w)) (u_id u2)
                 = pending_total e (commissions w) (u_id u2)
             \<and> pending_total e (commissions (payout_loop e [u1, u2, u3] w)) (u_id u3) = 0
             \<and> LogFailedToProcessPayout (u_id u2) err2
                 \<in> set (console (payout_loop e [u1, u2, u3] w)))"
  proof (intro impI, elim conjE)
    assume h: "u_id u1 \<noteq> u_id u2" "u_id u2 \<noteq> u_id u3" "u_id u1 \<noteq> u_id u3"
      "50 \<le> pending_total e (commissions w) (u_id u1)"
      "50 \<le> pending_total e (commissions w) (u_id u2)"
      "50 \<le> pending_total e (commissions w) (u_id u3)"
      "db_ok e (db_calls w) 12"
      "stripe_transfers_create e (length (transfers w)) (payout_request e u1 w) = Inr t1"
      "stripe_transfers_create e (length (transfers w) + 1) (payout_request e u2 w) = Inl err2"
      "stripe_transfers_create e (length (transfers w) + 2) (payout_request e u3 w) = Inr t3"
    show "\<exists>r1 r2 r3.
             affiliate_payouts (payout_loop e [u1, u2, u3] w) = affiliate_payouts w @ [r1, r2, r3]
             \<and> p_user_id r1 = u_id u1 \<and> p_status r1 = ''paid'' \<and> p_stripe_payout_id r1 = Some t1
             \<and> p_user_id r2 = u_id u2 \<and> p_status r2 = ''failed''
             \<and> p_user_id r3 = u_id u3 \<and> p_status r3 = ''paid'' \<and> p_stripe_payout_id r3 = Some t3
             \<and> pending_total e (commissions (payout_loop e [u1, u2, u3] w)) (u_id u1) = 0
             \<and> pending_total e (commissions (payout_loop e [u1, u2, u3] w)) (u_id u2)
                 = pending_total e (commissions w) (u_id u2)
             \<and> pending_total e (commissions (payout_loop e [u1, u2, u3] w)) (u_id u3) = 0
             \<and> LogFailedToProcessPayout (u_id u2) err2
                 \<in> set (console (payout_loop e [u1, u2, u3] w))"
      unfolding three_users[OF h]
      using h(1-3)
      by (simp add: paid_world_def refused_world_def log_def pending_total_settled
          pending_total_settled_other del: map_map)
  qed
  from a b c d f show ?thesis by blast
qed

text \<open>
  Claim C6. The batch loop never stops at a user. For any list of users and any user
  \<open>u\<close> in it, \<open>u\<close> is processed in the state its predecessors left, whatever happened
  to them, and the users after \<open>u\<close> are processed in the state \<open>u\<close> left: an error thrown
  for \<open>u\<close> is caught and logged with the user's id, and the loop goes on. Every user of
  the list gets its processing message on the console. \<open>processMonthlyPayouts\<close> runs
  this loop over the rows of the eligibility scan, in their order, and then writes the
  message of the completed batch; it returns without an error whenever the scan itself
  succeeds, and every user of the table with a payment account and a database sum of at
  least 50 is processed by it. In particular, when the scan returns three users with
  distinct ids, the database statements succeed, the first and third transfer succeed
  and the second is refused, the batch returns without an error and has appended three
  payout rows, \<open>paid\<close>, \<open>failed\<close>, \<open>paid\<close>, one per user in order; the first and third
  user have no pending commissions left, the second user's pending sum is unchanged, and
  the second user's failure is on the console. The same holds of the loop run on any
  three such users.
\<close>

theorem one_failing_user_does_not_abort_the_batch:
  "payout_loop e (us1 @ u # us2) w =
     payout_loop e us2
       (case processUserPayout e u (payout_loop e us1 w) of
          (Inl err, w') \<Rightarrow> log w' (LogFailedToProcessPayout (u_id u) err)
        | (Inr x, w') \<Rightarrow> w')
   \<and> LogProcessingPayout (u_id u) (u_email u)
       \<in> set (console (payout_loop e (us1 @ u # us2) w))
   \<and> (\<forall>err w'. processUserPayout e u (payout_loop e us1 w) = (Inl err, w') \<longrightarrow>
         LogFailedToProcessPayout (u_id u) err
           \<in> set (console (payout_loop e (us1 @ u # us2) w)))
   \<and> (db_fault e (db_calls w) = None \<longrightarrow>
         fst (processMonthlyPayouts e w) = Inr ()
         \<and> last (console (snd (processMonthlyPayouts e w)))
             \<in> {LogMonthlyProcessCompleted, LogNoEligibleUsers})
   \<and> (u_id u1 \<noteq> u_id u2 \<and> u_id u2 \<noteq> u_id u3 \<and> u_id u1 \<noteq> u_id u3
       \<and> 50 \<le> pending_total e (commissions w) (u_id u1)
       \<and> 50 \<le> pending_total e (commissions w) (u_id u2)
       \<and> 50 \<le> pending_total e (commissions w) (u_id u3)
       \<and> db_ok e (db_calls w) 12
       \<and> stripe_transfers_create e (length (transfers w)) (payout_request e u1 w) = Inr t1
       \<and> stripe_transfers_create e (length (transfers w) + 1) (payout_request e u2 w) = Inl err2
       \<and> stripe_transfers_create e (length (transfers w) + 2) (payout_request e u3 w) = Inr t3
       \<longrightarrow> (\<exists>r1 r2 r3.
             affiliate_payouts (payout_loop e [u1, u2, u3] w) = affiliate_payouts w @ [r1, r2, r3]
             \<and> p_user_id r1 = u_id u1 \<and> p_status r1 = ''paid'' \<and> p_stripe_payout_id r1 = Some t1
             \<and> p_user_id r2 = u_id u2 \<and> p_status r2 = ''failed''
             \<and> p_user_id r3 = u_id u3 \<and> p_status r3 = ''paid'' \<and> p_stripe_payout_id r3 = Some t3
             \<and> pending_total e (commissions (payout_loop e [u1, u2, u3] w)) (u_id u1) = 0
             \<and> pending_total e (commissions (payout_loop e [u1, u2, u3] w)) (u_id u2)
                 = pending_total e (commissions w) (u_id u2)
             \<and> pending_total e (commissions (payout_loop e [u1, u2, u3] w)) (u_id u3) = 0
             \<and> LogFailedToProcessPayout (u_id u2) err2
                 \<in> set (console (payout_loop e [u1, u2, u3] w))))
   \<and> (\<forall>rows w1. getEligibleUsers e (log w LogProcessingMonthlyPayouts) = (Inr rows, w1)
          \<and> rows \<noteq> [] \<longrightarrow>
        processMonthlyPayouts e w =
          (Inr (),
           log (payout_loop e (map fst rows) (log w1 (LogProcessingPayoutsFor (length rows))))
             LogMonthlyProcessCompleted))
   \<and> (\<forall>v \<in> set (users w).
        db_fault e (db_calls w) = None \<and> u_stripe_account_id v \<noteq> None
        \<and> 50 \<le> pending_total e (commissions w) (u_id v) \<longrightarrow>
        LogProcessingPayout (u_id v) (u_email v)
          \<in> set (console (snd (processMonthlyPayouts e w))))
   \<and> (fst (getEligibleUsers e w) = Inr [(u1, a1), (u2, a2), (u3, a3)]
       \<and> u_id u1 \<noteq> u_id u2 \<and> u_id u2 \<noteq> u_id u3 \<and> u_id u1 \<noteq> u_id u3
       \<and> db_ok e (db_calls w) 13
       \<and> stripe_transfers_create e (length (transfers w)) (payout_request e u1 w) = Inr t1
       \<and> stripe_transfers_create e (length (transfers w) + 1) (payout_request e u2 w) = Inl err2
       \<and> stripe_transfers_create e (length (transfers w) + 2) (payout_request e u3 w) = Inr t3
       \<longrightarrow> fst (processMonthlyPayouts e w) = Inr ()
           \<and> (\<exists>r1 r2 r3.
                affiliate_payouts (snd (processMonthlyPayouts e w))
                  = affiliate_payouts w @ [r1, r2, r3]
                \<and> p_user_id r1 = u_id u1 \<and> p_status r1 = ''paid''
                \<and> p_stripe_payout_id r1 = Some t1
                \<and> p_user_id r2 = u_id u2 \<and> p_status r2 = ''failed''
                \<and> p_user_id r3 = u_id u3 \<and> p_status r3 = ''paid''
                \<and> p_stripe_payout_id r3 = Some t3)
           \<and> pending_total e (commissions (snd (processMonthlyPayouts e w))) (u_id u1) = 0
           \<and> pending_total e (commissions (snd (processMonthlyPayouts e w))) (u_id u2)
               = pending_total e (commissions w) (u_id u2)
           \<and> pending_total e (commissions (snd (processMonthlyPayouts e w))) (u_id u3) = 0
           \<and> LogFailedToProcessPayout (u_id u2) err2
               \<in> set (console (snd (processMonthlyPayouts e w)))
           \<and> last (console (snd (processMonthlyPayouts e w))) = LogMonthlyProcessCompleted)"
proof -
  have loop: "payout_loop e (us1 @ u # us2) w =
     payout_loop e us2
       (case processUserPayout e u (payout_loop e us1 w) of
          (Inl err, w') \<Rightarrow> log w' (LogFailedToProcessPayout (u_id u) err)
        | (Inr x, w') \<Rightarrow> w')
   \<and> LogProcessingPayout (u_id u) (u_email u)
       \<in> set (console (payout_loop e (us1 @ u # us2) w))
   \<and> (\<forall>err w'. processUserPayout e u (payout_loop e us1 w) = (Inl err, w') \<longrightarrow>
         LogFailedToProcessPayout (u_id u) err
           \<in> set (console (payout_loop e (us1 @ u # us2) w)))
   \<and> (db_fault e (db_calls w) = None \<longrightarrow>
         fst (processMonthlyPayouts e w) = Inr ()
         \<and> last (console (snd (processMonthlyPayouts e w)))
             \<in> {LogMonthlyProcessCompleted, LogNoEligibleUsers})
   \<and> (u_id u1 \<noteq> u_id u2 \<and> u_id u2 \<noteq> u_id u3 \<and> u_id u1 \<noteq> u_id u3
       \<and> 50 \<le> pending_total e (commissions w) (u_id u1)
       \<and> 50 \<le> pending_total e (commissions w) (u_id u2)
       \<and> 50 \<le> pending_total e (commissions w) (u_id u3)
       \<and> db_ok e (db_calls w) 12
       \<and> stripe_transfers_create e (length (transfers w)) (payout_request e u1 w) = Inr t1
       \<and> stripe_transfers_create e (length (transfers w) + 1) (payout_request e u2 w) = Inl err2
       \<and> stripe_transfers_create e (length (transfers w) + 2) (payout_request e u3 w) = Inr t3
       \<longrightarrow> (\<exists>r1 r2 r3.
             affiliate_payouts (payout_loop e [u1, u2, u3] w) = affiliate_payouts w @ [r1, r2, r3]
             \<and> p_user_id r1 = u_id u1 \<and> p_status r1 = ''paid'' \<and> p_stripe_payout_id r1 = Some t1
             \<and> p_user_id r2 = u_id u2 \<and> p_status r2 = ''failed''
             \<and> p_user_id r3 = u_id u3 \<and> p_status r3 = ''paid'' \<and> p_stripe_payout_id r3 = Some t3
             \<and> pending_total e (commissions (payout_loop e [u1, u2, u3] w)) (u_id u1) = 0
             \<and> pending_total e (commissions (payout_loop e [u1, u2, u3] w)) (u_id u2)
                 = pending_total e (commissions w) (u_id u2)
             \<and> pending_total e (commissions (payout_loop e [u1, u2, u3] w)) (u_id u3) = 0
             \<and> LogFailedToProcessPayout (u_id u2) err2
                 \<in> set (console (payout_loop e [u1, u2, u3] w))))"
    by (rule payout_loop_never_aborts)
  have link: "\<forall>rows w1. getEligibleUsers e (log w LogProcessingMonthlyPayouts) = (Inr rows, w1)
          \<and> rows \<noteq> [] \<longrightarrow>
        processMonthlyPayouts e w =
          (Inr (),
           log (payout_loop e (map fst rows) (log w1 (LogProcessingPayoutsFor (length rows))))
             LogMonthlyProcessCompleted)"
    using processMonthlyPayouts_runs_loop by blast
  have every: "\<forall>v \<in> set (users w).
        db_fault e (db_calls w) = None \<and> u_stripe_account_id v \<noteq> None
        \<and> 50 \<le> pending_total e (commissions w) (u_id v) \<longrightarrow>
        LogProcessingPayout (u_id v) (u_email v)
          \<in> set (console (snd (processMonthlyPayouts e w)))"
    using batch_processes_every_eligible_user by blast
  have scen: "fst (processMonthlyPayouts e w) = Inr ()
           \<and> (\<exists>r1 r2 r3.
                affiliate_payouts (snd (processMonthlyPayouts e w))
                  = affiliate_payouts w @ [r1, r2, r3]
                \<and> p_user_id r1 = u_id u1 \<and> p_status r1 = ''paid''
                \<and> p_stripe_payout_id r1 = Some t1
                \<and> p_user_id r2 = u_id u2 \<and> p_status r2 = ''failed''
                \<and> p_user_id r3 = u_id u3 \<and> p_status r3 = ''paid''
                \<and> p_stripe_payout_id r3 = Some t3)
           \<and> pending_total e (commissions (snd (processMonthlyPayouts e w))) (u_id u1) = 0
           \<and> pending_total e (commissions (snd (processMonthlyPayouts e w))) (u_id u2)
               = pending_total e (commissions w) (u_id u2)
           \<and> pending_total e (commissions (snd (processMonthlyPayouts e w))) (u_id u3) = 0
           \<and> LogFailedToProcessPayout (u_id u2) err2
               \<in> set (console (snd (processMonthlyPayouts e w)))
           \<and> last (console (snd (processMonthlyPayouts e w))) = LogMonthlyProcessCompleted"
    if h: "fst (getEligibleUsers e w) = Inr [(u1, a1), (u2, a2), (u3, a3)]"
      "u_id u1 \<noteq> u_id u2" "u_id u2 \<noteq> u_id u3" "u_id u1 \<noteq> u_id u3"
      "db_ok e (db_calls w) 13"
      "stripe_transfers_create e (length (transfers w)) (payout_request e u1 w) = Inr t1"
      "stripe_transfers_create e (length (transfers w) + 1) (payout_request e u2 w) = Inl err2"
      "stripe_transfers_create e (length (transfers w) + 2) (payout_request e u3 w) = Inr t3"
  proof -
    from batch_three_users[OF h] obtain w2 where
      c: "commissions w2 = commissions w" and p: "affiliate_payouts w2 = affiliate_payouts w"
      and b: "processMonthlyPayouts e w =
          (Inr (), log (payout_loop e [u1, u2, u3] w2) LogMonthlyProcessCompleted)"
      and l: "payout_loop e [u1, u2, u3] w2 =
           paid_world e u3 t3
             (log (refused_world e u2 err2 (paid_world e u1 t1 w2))
                (LogFailedToProcessPayout (u_id u2) err2))"
      by blast
    show ?thesis
      unfolding b l using h(2-4) c p
      by (simp add: paid_world_def refused_world_def log_def pending_total_settled
          pending_total_settled_other del: map_map)
  qed
  from loop link every scen show ?thesis
    by blast
qed

theorem one_failing_user_does_not_abort_the_batch_witness:
  "db_fault env_second_transfer_fails (db_calls world_ledger) = None
   \<and> u_id user2 \<noteq> u_id user3 \<and> u_id user3 \<noteq> u_id user1 \<and> u_id user2 \<noteq> u_id user1
   \<and> 50 \<le> pending_total env_second_transfer_fails (commissions world_ledger) (u_id user2)
   \<and> 50 \<le> pending_total env_second_transfer_fails (commissions world_ledger) (u_id user3)
   \<and> 50 \<le> pending_total env_second_transfer_fails (commissions world_ledger) (u_id user1)
   \<and> db_ok env_second_transfer_fails (db_calls world_ledger) 12
   \<and> db_ok env_second_transfer_fails (db_calls world_ledger) 13
   \<and> stripe_transfers_create env_second_transfer_fails (length (transfers world_ledger))
         (payout_request env_second_transfer_fails user2 world_ledger) = Inr ''tr_1''
   \<and> stripe_transfers_create env_second_transfer_fails (length (transfers world_ledger) + 1)
         (payout_request env_second_transfer_fails user3 world_ledger)
       = Inl (Error ''transfer refused'')
   \<and> stripe_transfers_create env_second_transfer_fails (length (transfers world_ledger) + 2)
         (payout_request env_second_transfer_fails user1 world_ledger) = Inr ''tr_1''
   \<and> fst (getEligibleUsers env_second_transfer_fails world_ledger)
       = Inr [(user2, 70), (user3, 60), (user1, 50)]
   \<and> fst (processMonthlyPayouts env_second_transfer_fails world_ledger) = Inr ()
   \<and> (\<exists>r1 r2 r3.
         affiliate_payouts (payout_loop env_second_transfer_fails [user2, user3, user1] world_ledger)
           = affiliate_payouts world_ledger @ [r1, r2, r3]
         \<and> p_user_id r1 = 2 \<and> p_status r1 = ''paid''
         \<and> p_user_id r2 = 3 \<and> p_status r2 = ''failed''
         \<and> p_user_id r3 = 1 \<and> p_status r3 = ''paid''
         \<and> LogFailedToProcessPayout 3 (Error ''transfer refused'')
             \<in> set (console (payout_loop env_second_transfer_fails [user2, user3, user1]
                                world_ledger)))
   \<and> (\<exists>r1 r2 r3.
         affiliate_payouts (snd (processMonthlyPayouts env_second_transfer_fails world_ledger))
           = affiliate_payouts world_ledger @ [r1, r2, r3]
         \<and> p_user_id r1 = 2 \<and> p_status r1 = ''paid''
         \<and> p_user_id r2 = 3 \<and> p_status r2 = ''failed''
         \<and> p_user_id r3 = 1 \<and> p_status r3 = ''paid'')
   \<and> LogFailedToProcessPayout 3 (Error ''transfer refused'')
       \<in> set (console (snd (processMonthlyPayouts env_second_transfer_fails world_ledger)))
   \<and> last (console (snd (processMonthlyPayouts env_second_transfer_fails world_ledger)))
       = LogMonthlyProcessCompleted"
proof -
  have h0: "db_fault env_second_transfer_fails (db_calls world_ledger) = None"
    by (simp add: example_defs)
  have h1: "u_id user2 \<noteq> u_id user3 \<and> u_id user3 \<noteq> u_id user1 \<and> u_id user2 \<noteq> u_id user1"
    by (simp add: example_defs)
  have h2: "50 \<le> pending_total env_second_transfer_fails (commissions world_ledger) (u_id user2)
      \<and> 50 \<le> pending_total env_second_transfer_fails (commissions world_ledger) (u_id user3)
      \<and> 50 \<le> pending_total env_second_transfer_fails (commissions world_ledger) (u_id user1)"
    by (simp add: ledger_totals example_SUM example_ids)
  have h3: "db_ok env_second_transfer_fails (db_calls world_ledger) 12"
    by (simp add: example_defs eval_nat_numeral)
  have h4: "stripe_transfers_create env_second_transfer_fails (length (transfers world_ledger))
         (payout_request env_second_transfer_fails user2 world_ledger) = Inr ''tr_1''
     \<and> stripe_transfers_create env_second_transfer_fails (length (transfers world_ledger) + 1)
         (payout_request env_second_transfer_fails user3 world_ledger)
       = Inl (Error ''transfer refused'')
     \<and> stripe_transfers_create env_second_transfer_fails (length (transfers world_ledger) + 2)
         (payout_request env_second_transfer_fails user1 world_ledger) = Inr ''tr_1''"
    by (simp add: example_defs)
  have h5: "fst (getEligibleUsers env_second_transfer_fails world_ledger)
       = Inr [(user2, 70), (user3, 60), (user1, 50)]"
    by (simp add: getEligibleUsers_def db_call_def example_defs sql_SUM_def pending_amounts_def
        double_sum_def to_double_small)
  have u: "u_id user2 = 2" "u_id user3 = 3" "u_id user1 = 1"
    by (simp_all add: example_defs)
  have h6: "db_ok env_second_transfer_fails (db_calls world_ledger) 13"
    by (simp add: example_defs eval_nat_numeral)
  show ?thesis
    using one_failing_user_does_not_abort_the_batch
            [of env_second_transfer_fails "[user2]" user3 "[user1]" world_ledger
               user2 user3 user1 "''tr_1''" "Error ''transfer refused''" "''tr_1''" 70 60 50]
      h0 h1 h2 h3 h4 h5 h6
    unfolding u by blast
qed

section \<open>The scheduler\<close>

lemma tomorrow_is_first:
  assumes "valid_date d"
  shows "(getDate (setDate d (getDate d + 1)) = 1)
         = (getDate d = days_in_month (getFullYear d) (getMonth d))"
  using assms by (auto simp: setDate_def valid_date_def Let_def)

lemma last_day_in_cron_range:
  "valid_date d \<Longrightarrow> getDate d = days_in_month (getFullYear d) (getMonth d) \<Longrightarrow>
   schedule_fires d"
  by (auto simp: days_in_month_def schedule_fires_def)

lemma console_processMonthlyPayouts:
  "\<exists>ms. console (snd (processMonthlyPayouts e w)) = console w @ LogProcessingMonthlyPayouts # ms"
proof (cases "db_fault e (db_calls w)")
  case (Some err)
  then show ?thesis
    by (simp add: processMonthlyPayouts_def getEligibleUsers_def db_call_def log_def Let_def)
next
  case None
  obtain rows w1 where r: "getEligibleUsers e (log w LogProcessingMonthlyPayouts) = (Inr rows, w1)"
    and c: "console w1 = console w @ [LogProcessingMonthlyPayouts]"
    using None by (simp add: getEligibleUsers_def db_call_def log_def Let_def)
  obtain ms where "console (payout_loop e (map fst rows)
        (log w1 (LogProcessingPayoutsFor (length rows))))
      = console (log w1 (LogProcessingPayoutsFor (length rows))) @ ms"
    using console_payout_loop by blast
  then show ?thesis
    using r c by (simp add: processMonthlyPayouts_def log_def)
qed

text \<open>
  Claim C8. At a firing of the schedule on a calendar date, the date of the next day is
  1 exactly when today is the last day of its month. On such a day, which is always one
  of the days 28 to 31 the schedule fires on, the job invokes \<open>processMonthlyPayouts\<close>
  (catching and logging an error it throws), and the message of the started batch
  reaches the console. On any other day the job only writes its two messages: no
  table, no sequence and no transfer request is touched, no database statement is
  issued. \<open>triggerManualPayout\<close> reads no date: for every environment it is
  \<open>processMonthlyPayouts\<close> after one console message, and the batch starts.
\<close>

theorem scheduled_job_runs_the_batch_only_on_the_last_day:
  "(valid_date (now e) \<longrightarrow>
      ((getDate (setDate (now e) (getDate (now e) + 1)) = 1)
        = (getDate (now e) = days_in_month (getFullYear (now e)) (getMonth (now e))))
      \<and> (getDate (now e) = days_in_month (getFullYear (now e)) (getMonth (now e)) \<longrightarrow>
            schedule_fires (now e)
            \<and> monthlyPayoutJob e w =
                (case processMonthlyPayouts e (log w LogStartingMonthlyProcess) of
                   (Inl err, w') \<Rightarrow> log w' (LogMonthlyJobFailed err)
                 | (Inr x, w') \<Rightarrow> w')
            \<and> LogProcessingMonthlyPayouts \<in> set (console (monthlyPayoutJob e w)))
      \<and> (getDate (now e) \<noteq> days_in_month (getFullYear (now e)) (getMonth (now e)) \<longrightarrow>
            monthlyPayoutJob e w =
              w\<lparr>console := console w @ [LogStartingMonthlyProcess, LogNotLastDaySkipping]\<rparr>))
   \<and> triggerManualPayout e w = processMonthlyPayouts e (log w LogTriggeringManual)
   \<and> LogProcessingMonthlyPayouts \<in> set (console (snd (triggerManualPayout e w)))"
proof -
  have m: "LogProcessingMonthlyPayouts \<in> set (console (snd (processMonthlyPayouts e w0)))" for w0
    using console_processMonthlyPayouts[of e w0] by auto
  have a: "valid_date (now e) \<Longrightarrow>
      (getDate (setDate (now e) (getDate (now e) + 1)) = 1)
        = (getDate (now e) = days_in_month (getFullYear (now e)) (getMonth (now e)))"
    by (rule tomorrow_is_first)
  have b: "monthlyPayoutJob e w =
                (case processMonthlyPayouts e (log w LogStartingMonthlyProcess) of
                   (Inl err, w') \<Rightarrow> log w' (LogMonthlyJobFailed err)
                 | (Inr x, w') \<Rightarrow> w')
            \<and> LogProcessingMonthlyPayouts \<in> set (console (monthlyPayoutJob e w))"
    if "valid_date (now e)"
      and "getDate (now e) = days_in_month (getFullYear (now e)) (getMonth (now e))"
  proof -
    have t: "getDate (setDate (now e) (getDate (now e) + 1)) = 1"
      using a[OF that(1)] that(2) by simp
    have eq: "monthlyPayoutJob e w =
                (case processMonthlyPayouts e (log w LogStartingMonthlyProcess) of
                   (Inl err, w') \<Rightarrow> log w' (LogMonthlyJobFailed err)
                 | (Inr x, w') \<Rightarrow> w')"
      using t by (simp add: monthlyPayoutJob_def Let_def)
    obtain r w1 where r: "processMonthlyPayouts e (log w LogStartingMonthlyProcess) = (r, w1)"
      by (cases "processMonthlyPayouts e (log w LogStartingMonthlyProcess)")
    have "LogProcessingMonthlyPayouts \<in> set (console w1)"
      using m[of "log w LogStartingMonthlyProcess"] r by simp
    then have "LogProcessingMonthlyPayouts \<in> set (console (monthlyPayoutJob e w))"
      unfolding eq r by (cases r) (simp_all add: log_def)
    with eq show ?thesis by simp
  qed
  have c: "monthlyPayoutJob e w =
              w\<lparr>console := console w @ [LogStartingMonthlyProcess, LogNotLastDaySkipping]\<rparr>"
    if "valid_date (now e)"
      and "getDate (now e) \<noteq> days_in_month (getFullYear (now e)) (getMonth (now e))"
    using a[OF that(1)] that(2) by (simp add: monthlyPayoutJob_def Let_def log_def)
  have d: "triggerManualPayout e w = processMonthlyPayouts e (log w LogTriggeringManual)"
    by (simp add: triggerManualPayout_def)
  have f: "LogProcessingMonthlyPayouts \<in> set (console (snd (triggerManualPayout e w)))"
    unfolding d by (rule m)
  show ?thesis
    using a b c d f last_day_in_cron_range[of "now e"] by blast
qed

theorem scheduled_job_runs_the_batch_only_on_the_last_day_witness:
  "valid_date (now env_ok)
   \<and> getDate (now env_ok) = days_in_month (getFullYear (now env_ok)) (getMonth (now env_ok))
   \<and> schedule_fires (now env_ok)
   \<and> LogProcessingMonthlyPayouts \<in> set (console (monthlyPayoutJob env_ok world_ledger))
   \<and> valid_date (now env_day30) \<and> schedule_fires (now env_day30)
   \<and> getDate (now env_day30)
       \<noteq> days_in_month (getFullYear (now env_day30)) (getMonth (now env_day30))
   \<and> monthlyPayoutJob env_day30 world_ledger =
       world_ledger\<lparr>console := console world_ledger
                       @ [LogStartingMonthlyProcess, LogNotLastDaySkipping]\<rparr>
   \<and> LogProcessingMonthlyPayouts \<in> set (console (snd (triggerManualPayout env_day30 world_ledger)))"
proof -
  have h1: "valid_date (now env_ok)"
    by (simp add: example_defs valid_date_def days_in_month_def)
  have h2: "getDate (now env_ok)
      = days_in_month (getFullYear (now env_ok)) (getMonth (now env_ok))"
    by (simp add: example_defs days_in_month_def)
  have h3: "valid_date (now env_day30)"
    by (simp add: example_defs valid_date_def days_in_month_def)
  have h4: "getDate (now env_day30)
      \<noteq> days_in_month (getFullYear (now env_day30)) (getMonth (now env_day30))"
    by (simp add: example_defs days_in_month_def)
  have h5: "schedule_fires (now env_day30)"
    by (simp add: example_defs schedule_fires_def)
  show ?thesis
    using scheduled_job_runs_the_batch_only_on_the_last_day[of env_ok world_ledger]
      scheduled_job_runs_the_batch_only_on_the_last_day[of env_day30 world_ledger]
      h1 h2 h3 h4 h5
    by blast
qed

section \<open>The commission recorders\<close>

lemma getUserById_ok:
  "db_fault e (db_calls w) = None \<Longrightarrow>
   getUserById e ident w
     = (Inr (find (\<lambda>u. u_id u = ident) (users w)), w\<lparr>db_calls := Suc (db_calls w)\<rparr>)"
  by (simp add: getUserById_def db_call_def)

lemma createCommission_ok:
  "db_fault e (db_calls w) = None \<Longrightarrow>
   createCommission e r u p c intent w =
     (Inr (next_rowid (commissions_seq w) (map c_id (commissions w))),
      w\<lparr>db_calls := Suc (db_calls w),
        commissions := commissions w @
          [\<lparr>c_id = next_rowid (commissions_seq w) (map c_id (commissions w)),
            c_referrer_id = r, c_referred_user_id = u,
            c_purchase_amount = p, c_commission_amount = c,
            c_status = ''pending'', c_stripe_payment_intent_id = intent,
            c_created_at = now e, c_paid_at = None\<rparr>],
        commissions_seq := next_rowid (commissions_seq w) (map c_id (commissions w))\<rparr>)"
  by (simp add: createCommission_def db_call_def Let_def)

lemma with_referrer_Some:
  "u_referrer_id u = Some r \<Longrightarrow> r \<noteq> 0 \<Longrightarrow> with_referrer (Some u) = Some (u, r)"
  by (simp add: with_referrer_def)

text \<open>
  What the recorder stores: for a one-time purchase whose session names a user that
  exists and has a referrer, and with the lookup and the insert succeeding, exactly one
  commission row is appended, for that referrer and that user, \<open>pending\<close>, with the
  purchase amount and the commission amount as the binary64 division and multiplication
  give them. No step rounds the amount to two decimal places.
\<close>

lemma purchase_commission_row:
  assumes "js_or (s_metadata_userId session) (s_customer session) = Some userId"
    and "find (\<lambda>u. u_id u = userId) (users w) = Some u"
    and "u_referrer_id u = Some r" and "r \<noteq> 0"
    and "db_ok e (db_calls w) 2"
  shows "\<exists>c. commissions (processAffiliateCommission e session w) = commissions w @ [c]
           \<and> c_referrer_id c = r \<and> c_referred_user_id c = userId
           \<and> c_purchase_amount c = to_double (of_int (s_amount_total session) / 100)
           \<and> c_commission_amount c = to_double (c_purchase_amount c * to_double (4 / 10))
           \<and> c_status c = ''pending'' \<and> c_paid_at c = None"
  using assms
  by (auto simp: processAffiliateCommission_def getUserById_ok createCommission_ok
      with_referrer_Some eval_nat_numeral log_def Let_def)

text \<open>
  Claim C4. The claim fails in the code for a purchase of 9.99 by user 2, whom user 1
  referred. One \<open>pending\<close> commission row is appended, as the claim says, but its
  amount is the binary64 number 3.9960000000000004, the product of the binary64 numbers
  9.99 and 0.4. The claimed amount, 9.99 times 0.40 rounded to two decimal places, is
  4.00; the stored amount is not a number of two decimal places at all, although the
  column is declared \<open>DECIMAL(10,2)\<close>.
\<close>

theorem purchase_commission_stored_unrounded:
  "length (commissions (processAffiliateCommission env_ok session_999 world_ledger))
     = Suc (length (commissions world_ledger))
   \<and> c_referrer_id
        (last (commissions (processAffiliateCommission env_ok session_999 world_ledger))) = 1
   \<and> c_status
        (last (commissions (processAffiliateCommission env_ok session_999 world_ledger)))
       = ''pending''
   \<and> c_purchase_amount
        (last (commissions (processAffiliateCommission env_ok session_999 world_ledger)))
       = 5623870034678907 / 562949953421312
   \<and> c_commission_amount
        (last (commissions (processAffiliateCommission env_ok session_999 world_ledger)))
       = 2249548013871563 / 562949953421312
   \<and> round_currency (rat_of_int (s_amount_total session_999) / 100 * (4 / 10)) = 4
   \<and> round_currency
        (c_purchase_amount
           (last (commissions (processAffiliateCommission env_ok session_999 world_ledger)))
         * (4 / 10)) = 4
   \<and> c_commission_amount
        (last (commissions (processAffiliateCommission env_ok session_999 world_ledger)))
       \<noteq> 4
   \<and> round_currency
        (c_commission_amount
           (last (commissions (processAffiliateCommission env_ok session_999 world_ledger))))
       \<noteq> c_commission_amount
           (last (commissions (processAffiliateCommission env_ok session_999 world_ledger)))"
proof -
  have len: "length (commissions (processAffiliateCommission env_ok session_999 world_ledger))
     = Suc (length (commissions world_ledger))"
    by code_simp
  have ref: "c_referrer_id
        (last (commissions (processAffiliateCommission env_ok session_999 world_ledger))) = 1"
    by code_simp
  have st: "c_status
        (last (commissions (processAffiliateCommission env_ok session_999 world_ledger)))
       = ''pending''"
    by code_simp
  have pa: "c_purchase_amount
        (last (commissions (processAffiliateCommission env_ok session_999 world_ledger)))
       = 5623870034678907 / 562949953421312"
    by code_simp
  have ca: "c_commission_amount
        (last (commissions (processAffiliateCommission env_ok session_999 world_ledger)))
       = 2249548013871563 / 562949953421312"
    by code_simp
  have r1: "round_currency (rat_of_int (s_amount_total session_999) / 100 * (4 / 10)) = 4"
    by code_simp
  have r2: "round_currency (5623870034678907 / 562949953421312 * (4 / 10)) = 4"
    by code_simp
  have r3: "round_currency (2249548013871563 / 562949953421312) = 4"
    by code_simp
  have ne: "(2249548013871563 / 562949953421312 :: rat) \<noteq> 4"
    by simp
  show ?thesis
    unfolding pa ca using len ref st r1 r2 r3 ne by simp
qed

text \<open>
  Claim C5. For a subscription invoice whose payer exists and has a referrer, and with
  the lookup and the insert succeeding, a commission row is appended exactly when the
  month-number difference between the account creation date and the invoice date is
  less than 3; at 3 or more the commission table is unchanged, whatever the database
  statements do. The difference is
  \<open>(yearDiff * 12) + monthDiff\<close> and does not depend on the days of the month: an
  account created on 15 January and an invoice of 10 April of the same year give 3, so
  no commission is created. The appended row is \<open>pending\<close>, for the payer's referrer,
  with the binary64 product of the invoice amount and 0.4 as its amount.
\<close>

theorem subscription_commission_only_below_three_months:
  assumes "js_or (i_metadata_userId invoice) (i_customer invoice) = Some userId"
    and "find (\<lambda>u. u_id u = userId) (users w) = Some u"
    and "u_referrer_id u = Some r" and "r \<noteq> 0"
  shows "(db_ok e (db_calls w) 2 \<longrightarrow>
           (monthsDiff (u_created_at u) (i_created invoice) < 3 \<longrightarrow>
              (\<exists>c. commissions (processSubscriptionCommission e invoice w) = commissions w @ [c]
                 \<and> c_referrer_id c = r \<and> c_referred_user_id c = userId
                 \<and> c_purchase_amount c = to_double (of_int (i_amount_paid invoice) / 100)
                 \<and> c_commission_amount c
                     = to_double (c_purchase_amount c * to_double (4 / 10))
                 \<and> c_status c = ''pending'' \<and> c_paid_at c = None))
           \<and> (length (commissions (processSubscriptionCommission e invoice w))
                 = Suc (length (commissions w)))
              = (monthsDiff (u_created_at u) (i_created invoice) < 3))
       \<and> (3 \<le> monthsDiff (u_created_at u) (i_created invoice) \<longrightarrow>
           commissions (processSubscriptionCommission e invoice w) = commissions w)
       \<and> monthsDiff (u_created_at u) (i_created invoice)
          = (getFullYear (i_created invoice) - getFullYear (u_created_at u)) * 12
            + (getMonth (i_created invoice) - getMonth (u_created_at u))
       \<and> monthsDiff ((u_created_at u)\<lparr>getDate := da\<rparr>) ((i_created invoice)\<lparr>getDate := db\<rparr>)
          = monthsDiff (u_created_at u) (i_created invoice)
       \<and> monthsDiff \<lparr>getFullYear = yr, getMonth = 0, getDate = 15\<rparr>
            \<lparr>getFullYear = yr, getMonth = 3, getDate = 10\<rparr> = 3"
proof -
  have created: "(monthsDiff (u_created_at u) (i_created invoice) < 3 \<longrightarrow>
              (\<exists>c. commissions (processSubscriptionCommission e invoice w) = commissions w @ [c]
                 \<and> c_referrer_id c = r \<and> c_referred_user_id c = userId
                 \<and> c_purchase_amount c = to_double (of_int (i_amount_paid invoice) / 100)
                 \<and> c_commission_amount c
                     = to_double (c_purchase_amount c * to_double (4 / 10))
                 \<and> c_status c = ''pending'' \<and> c_paid_at c = None))
           \<and> (length (commissions (processSubscriptionCommission e invoice w))
                 = Suc (length (commissions w)))
              = (monthsDiff (u_created_at u) (i_created invoice) < 3)"
    if "db_ok e (db_calls w) 2"
    using assms that
    by (auto simp: processSubscriptionCommission_def getUserById_ok createCommission_ok
        with_referrer_Some eval_nat_numeral log_def Let_def)
  have expired: "commissions (processSubscriptionCommission e invoice w) = commissions w"
    if "3 \<le> monthsDiff (u_created_at u) (i_created invoice)"
    using assms that
    by (simp add: processSubscriptionCommission_def getUserById_def db_call_def
        with_referrer_Some log_def Let_def split: option.split)
  have months: "monthsDiff (u_created_at u) (i_created invoice)
          = (getFullYear (i_created invoice) - getFullYear (u_created_at u)) * 12
            + (getMonth (i_created invoice) - getMonth (u_created_at u))"
    "monthsDiff ((u_created_at u)\<lparr>getDate := da\<rparr>) ((i_created invoice)\<lparr>getDate := db\<rparr>)
          = monthsDiff (u_created_at u) (i_created invoice)"
    "monthsDiff \<lparr>getFullYear = yr, getMonth = 0, getDate = 15\<rparr>
            \<lparr>getFullYear = yr, getMonth = 3, getDate = 10\<rparr> = 3"
    by (simp_all add: monthsDiff_def)
  from created expired months show ?thesis
    by blast
qed

theorem subscription_commission_only_below_three_months_witness:
  "js_or (i_metadata_userId invoice_april) (i_customer invoice_april) = Some 2
   \<and> js_or (i_metadata_userId invoice_march) (i_customer invoice_march) = Some 2
   \<and> find (\<lambda>u. u_id u = 2) (users world_ledger) = Some user2
   \<and> u_referrer_id user2 = Some 1 \<and> (1::nat) \<noteq> 0
   \<and> db_ok env_ok (db_calls world_ledger) 2
   \<and> monthsDiff (u_created_at user2) (i_created invoice_april) = 3
   \<and> commissions (processSubscriptionCommission env_ok invoice_april world_ledger)
       = commissions world_ledger
   \<and> monthsDiff (u_created_at user2) (i_created invoice_march) = 2
   \<and> (\<exists>c. commissions (processSubscriptionCommission env_ok invoice_march world_ledger)
             = commissions world_ledger @ [c]
          \<and> c_referrer_id c = 1 \<and> c_referred_user_id c = 2 \<and> c_status c = ''pending'')"
proof -
  have h1: "js_or (i_metadata_userId invoice_april) (i_customer invoice_april) = Some 2"
    and h1': "js_or (i_metadata_userId invoice_march) (i_customer invoice_march) = Some 2"
    by (simp_all add: js_or_def example_defs)
  have h2: "find (\<lambda>u. u_id u = 2) (users world_ledger) = Some user2"
    by (simp add: example_defs)
  have h3: "u_referrer_id user2 = Some 1" by (simp add: example_defs)
  have h4: "(1::nat) \<noteq> 0" by simp
  have h5: "db_ok env_ok (db_calls world_ledger) 2"
    by (simp add: example_defs eval_nat_numeral)
  have m1: "monthsDiff (u_created_at user2) (i_created invoice_april) = 3"
    and m2: "monthsDiff (u_created_at user2) (i_created invoice_march) = 2"
    by (simp_all add: monthsDiff_def example_defs)
  show ?thesis
    using subscription_commission_only_below_three_months
            [OF h1 h2 h3 h4, where e = env_ok and da = 1 and db = 1 and yr = 2024]
      subscription_commission_only_below_three_months
            [OF h1' h2 h3 h4, where e = env_ok and da = 1 and db = 1 and yr = 2024]
      h1 h1' h2 h3 h4 h5
    unfolding m1 m2 by auto
qed

end
